theory Spec2Isabelle
  imports Main "HOL-Library.AList" "HOL-Library.Sublist"
begin

section \<open>Data model\<close>

text \<open>
  The registry document and the profile document are YAML files loaded into Python
  dictionaries. A dictionary keeps its insertion order and has unique keys, so each
  one is an association list in document order, read with \<open>map_of\<close> and written
  with \<open>AList.update\<close> (replace in place, or append a new key at the end).
  The keys \<open>name\<close>, \<open>description\<close> and \<open>port\<close> of a service entry, \<open>services\<close> of a
  profile and \<open>condition\<close> and \<open>profile\<close> of a selection rule are read with \<open>d[k]\<close>
  and are fields of the records; every key read with \<open>d.get(k, default)\<close> or tested
  with \<open>k in d\<close> is an optional field. Strings are ASCII.
\<close>

record service_info =
  info_name :: string
  info_description :: string
  info_port :: int
  info_category :: "string option"
  info_location :: "string option"
  info_requires_auth :: "bool option"
  info_command :: "string option"
  info_env_vars :: "string list option"

type_synonym registry = "(string \<times> service_info) list"

record profile_config =
  profile_services :: "string list"

record rule_condition =
  project_path_contains :: "string option"
  task_contains :: "string list option"
  context_contains :: "string list option"
  cond_default :: "bool option"

record selection_rule =
  rule_cond :: rule_condition
  rule_profile :: string

record profiles_doc =
  profiles :: "(string \<times> profile_config) list"
  selection_rules :: "selection_rule list option"

text \<open>The dictionary built by \<open>_format_service\<close>.\<close>

record service =
  svc_id :: string
  svc_name :: string
  svc_description :: string
  svc_url :: string
  svc_port :: int
  svc_category :: string
  svc_location :: string
  svc_requires_auth :: bool
  svc_env_vars :: "string list"

text \<open>
  \<open>ProfileNotFound p\<close> is the \<open>ValueError("Profile 'p' not found")\<close> raised by
  \<open>get_services_for_profile\<close>; \<open>KeyError k\<close> is a failed \<open>d[k]\<close>; \<open>SystemExit n\<close> is
  \<open>sys.exit(n)\<close> in a script.
\<close>

datatype error = ProfileNotFound string | KeyError string | SystemExit int

section \<open>Python's string operations\<close>

definition nl :: char where
  "nl = CHR 0x0A"

definition digit_char :: "nat \<Rightarrow> char" where
  "digit_char d = ''0123456789'' ! d"

fun str_nat :: "nat \<Rightarrow> string" where
  "str_nat n = (if n < 10 then [digit_char n] else str_nat (n div 10) @ [digit_char (n mod 10)])"

declare str_nat.simps [simp del]

text \<open>\<open>str(i)\<close> for an integer, as an f-string formats it.\<close>

definition str_int :: "int \<Rightarrow> string" where
  "str_int i = (if i < 0 then CHR ''-'' # str_nat (nat (- i)) else str_nat (nat i))"

text \<open>\<open>sep.join(xs)\<close>.\<close>

fun py_join :: "string \<Rightarrow> string list \<Rightarrow> string" where
  "py_join sep [] = []"
| "py_join sep [x] = x"
| "py_join sep (x # y # ys) = x @ sep @ py_join sep (y # ys)"

section \<open>The resolver: \<open>get_services_for_profile\<close>\<close>

definition get_requires_auth :: "service_info \<Rightarrow> bool" where
  "get_requires_auth svc_info = (case info_requires_auth svc_info of None \<Rightarrow> False | Some b \<Rightarrow> b)"

definition get_location :: "service_info \<Rightarrow> string" where
  "get_location svc_info = (case info_location svc_info of None \<Rightarrow> ''local'' | Some l \<Rightarrow> l)"

definition format_service :: "string \<Rightarrow> service_info \<Rightarrow> service" where
  "format_service service_id service_info =
     (let location = get_location service_info;
          host = (if location = ''workhorse'' then ''10.0.0.2'' else ''localhost'')
      in \<lparr> svc_id = service_id,
           svc_name = info_name service_info,
           svc_description = info_description service_info,
           svc_url = ''http://'' @ host @ '':'' @ str_int (info_port service_info),
           svc_port = info_port service_info,
           svc_category = (case info_category service_info of None \<Rightarrow> ''other'' | Some c \<Rightarrow> c),
           svc_location = location,
           svc_requires_auth = get_requires_auth service_info,
           svc_env_vars = (case info_env_vars service_info of None \<Rightarrow> [] | Some vs \<Rightarrow> vs) \<rparr>)"

text \<open>The inner loop of the wildcard branch, appending to \<open>services\<close>.\<close>

fun add_non_restricted :: "registry \<Rightarrow> service list \<Rightarrow> service list" where
  "add_non_restricted [] services = services"
| "add_non_restricted ((sid, svc_info) # rest) services =
     add_non_restricted rest
       (if \<not> get_requires_auth svc_info then services @ [format_service sid svc_info]
        else services)"

text \<open>The loop over \<open>allowed_services\<close>.\<close>

fun collect_services :: "registry \<Rightarrow> string list \<Rightarrow> service list \<Rightarrow> service list" where
  "collect_services reg [] services = services"
| "collect_services reg (service_id # rest) services =
     collect_services reg rest
       (if service_id = ''*'' then add_non_restricted reg services
        else (case map_of reg service_id of
                Some svc_info \<Rightarrow> services @ [format_service service_id svc_info]
              | None \<Rightarrow> services))"

definition get_services_for_profile :: "registry \<Rightarrow> profiles_doc \<Rightarrow> string \<Rightarrow> error + service list" where
  "get_services_for_profile reg profs profile =
     (case map_of (profiles profs) profile of
        None \<Rightarrow> Inl (ProfileNotFound profile)
      | Some profile_config \<Rightarrow> Inr (collect_services reg (profile_services profile_config) []))"

section \<open>The prompt renderer: \<open>generate_prompt_section\<close>\<close>

definition format_service_prompt :: "service \<Rightarrow> string" where
  "format_service_prompt service =
     (let lines = [''**'' @ svc_name service @ ''** (`'' @ svc_id service @ ''`)'',
                   ''- URL: '' @ svc_url service,
                   ''- Purpose: '' @ svc_description service];
          lines = (if svc_requires_auth service
                   then lines @ [''- Note: Requires authentication token''] else lines)
      in py_join [nl] lines @ [nl, nl])"

text \<open>\<open>s.lower()\<close>, \<open>s.replace('-', ' ')\<close> and \<open>s.title()\<close> on ASCII strings.\<close>

definition is_upper :: "char \<Rightarrow> bool" where
  "is_upper c = (let n = (of_char c :: nat) in 65 \<le> n \<and> n \<le> 90)"

definition is_lower :: "char \<Rightarrow> bool" where
  "is_lower c = (let n = (of_char c :: nat) in 97 \<le> n \<and> n \<le> 122)"

definition lower_char :: "char \<Rightarrow> char" where
  "lower_char c = (if is_upper c then char_of ((of_char c :: nat) + 32) else c)"

definition upper_char :: "char \<Rightarrow> char" where
  "upper_char c = (if is_lower c then char_of ((of_char c :: nat) - 32) else c)"

definition py_lower :: "string \<Rightarrow> string" where
  "py_lower s = map lower_char s"

definition replace_hyphens :: "string \<Rightarrow> string" where
  "replace_hyphens s = map (\<lambda>c. if c = CHR ''-'' then CHR '' '' else c) s"

fun title_from :: "bool \<Rightarrow> string \<Rightarrow> string" where
  "title_from previous_is_cased [] = []"
| "title_from previous_is_cased (c # cs) =
     (if is_lower c then (if previous_is_cased then c else upper_char c) # title_from True cs
      else if is_upper c then (if previous_is_cased then lower_char c else c) # title_from True cs
      else c # title_from False cs)"

definition py_title :: "string \<Rightarrow> string" where
  "py_title s = title_from False s"

definition category_order :: "string list" where
  "category_order = [''core'', ''search'', ''ai-context'', ''project'', ''development'', ''other'']"

definition category_header :: "string \<Rightarrow> string" where
  "category_header category = ''### '' @ py_title (replace_hyphens category) @ '' Services'' @ [nl, nl]"

text \<open>
  The dictionary \<open>categories\<close>: a category gets the empty list when first seen, then
  the service is appended to its list.
\<close>

fun group_by_category :: "service list \<Rightarrow> (string \<times> service list) list \<Rightarrow> (string \<times> service list) list" where
  "group_by_category [] categories = categories"
| "group_by_category (svc # rest) categories =
     group_by_category rest
       (let cat = svc_category svc
        in (case map_of categories cat of
              None \<Rightarrow> AList.update cat ([] @ [svc]) categories
            | Some svcs \<Rightarrow> AList.update cat (svcs @ [svc]) categories))"

text \<open>\<open>for svc in svcs: prompt += self._format_service_prompt(svc)\<close>\<close>

fun emit_services :: "service list \<Rightarrow> string \<Rightarrow> string" where
  "emit_services [] prompt = prompt"
| "emit_services (svc # rest) prompt = emit_services rest (prompt @ format_service_prompt svc)"

text \<open>The loop over \<open>category_order\<close>.\<close>

fun emit_categories :: "string list \<Rightarrow> (string \<times> service list) list \<Rightarrow> string \<Rightarrow> string" where
  "emit_categories [] categories prompt = prompt"
| "emit_categories (category # rest) categories prompt =
     emit_categories rest categories
       (case map_of categories category of
          None \<Rightarrow> prompt
        | Some svcs \<Rightarrow> emit_services svcs (prompt @ category_header category))"

definition no_services_sentence :: string where
  "no_services_sentence = nl # ''No MCP services are available for this task.''"

definition prompt_header :: string where
  "prompt_header = nl # ''You have access to the following MCP services:'' @ [nl, nl]"

definition closing_sentence :: string where
  "closing_sentence =
     ''Only use the MCP services listed above. Do not attempt to access any other services.'' @ [nl]"

text \<open>The body of \<open>generate_prompt_section\<close> once the services are resolved.\<close>

definition render_prompt :: "service list \<Rightarrow> bool \<Rightarrow> string" where
  "render_prompt services include_categories =
     (if services = [] then no_services_sentence
      else
        (let prompt = prompt_header;
             prompt = (if include_categories
                       then emit_categories category_order (group_by_category services []) prompt
                       else emit_services services prompt)
         in prompt @ closing_sentence))"

definition generate_prompt_section :: "registry \<Rightarrow> profiles_doc \<Rightarrow> string \<Rightarrow> bool \<Rightarrow> error + string" where
  "generate_prompt_section reg profs profile include_categories =
     (case get_services_for_profile reg profs profile of
        Inl e \<Rightarrow> Inl e
      | Inr services \<Rightarrow> Inr (render_prompt services include_categories))"

section \<open>The profile selector: \<open>determine_profile\<close>\<close>

text \<open>\<open>needle in haystack\<close> on strings.\<close>

fun py_contains :: "string \<Rightarrow> string \<Rightarrow> bool" where
  "py_contains needle [] = (needle = [])"
| "py_contains needle (c # cs) = (prefix needle (c # cs) \<or> py_contains needle cs)"

text \<open>
  The context is a dictionary of strings. \<open>str(project_context)\<close> is the parameter
  \<open>py_str\<close>: Python's rendering of a dictionary is not code of this repository.
\<close>

type_synonym project_context = "(string \<times> string) list"

text \<open>One iteration of the loop over the rules: \<open>Some p\<close> when it returns \<open>p\<close>.\<close>

definition rule_step :: "(project_context \<Rightarrow> string) \<Rightarrow> string \<Rightarrow> project_context \<Rightarrow> selection_rule \<Rightarrow> string option" where
  "rule_step py_str task project_context rule =
     (let condition = rule_cond rule
      in if (case project_path_contains condition of
               None \<Rightarrow> False
             | Some sub \<Rightarrow>
                 (let project_path = (case map_of project_context ''project_path'' of
                                        None \<Rightarrow> [] | Some p \<Rightarrow> p)
                  in py_contains sub project_path))
         then Some (rule_profile rule)
         else if (case task_contains condition of
                    None \<Rightarrow> False
                  | Some keywords \<Rightarrow>
                      (let task_lower = py_lower task
                       in list_ex (\<lambda>keyword. py_contains keyword task_lower) keywords))
         then Some (rule_profile rule)
         else if (case context_contains condition of
                    None \<Rightarrow> False
                  | Some keywords \<Rightarrow>
                      (let context_str = py_lower (py_str project_context)
                       in list_ex (\<lambda>keyword. py_contains keyword context_str) keywords))
         then Some (rule_profile rule)
         else if (case cond_default condition of None \<Rightarrow> False | Some b \<Rightarrow> b)
         then Some (rule_profile rule)
         else None)"

fun rules_loop :: "(project_context \<Rightarrow> string) \<Rightarrow> string \<Rightarrow> project_context \<Rightarrow> selection_rule list \<Rightarrow> string option" where
  "rules_loop py_str task project_context [] = None"
| "rules_loop py_str task project_context (rule # rest) =
     (case rule_step py_str task project_context rule of
        Some p \<Rightarrow> Some p
      | None \<Rightarrow> rules_loop py_str task project_context rest)"

definition get_selection_rules :: "profiles_doc \<Rightarrow> selection_rule list" where
  "get_selection_rules profs = (case selection_rules profs of None \<Rightarrow> [] | Some rs \<Rightarrow> rs)"

definition determine_profile :: "(project_context \<Rightarrow> string) \<Rightarrow> profiles_doc \<Rightarrow> string \<Rightarrow> project_context \<Rightarrow> string" where
  "determine_profile py_str profs task project_context =
     (case rules_loop py_str task project_context (get_selection_rules profs) of
        Some p \<Rightarrow> p
      | None \<Rightarrow> ''default'')"

section \<open>The client configuration: \<open>generate_claude_desktop_config\<close>\<close>

text \<open>\<open>s.split()\<close>: the maximal runs of characters that are not ASCII whitespace.\<close>

definition is_space :: "char \<Rightarrow> bool" where
  "is_space c = (let n = (of_char c :: nat) in (9 \<le> n \<and> n \<le> 13) \<or> (28 \<le> n \<and> n \<le> 32))"

fun split_from :: "string \<Rightarrow> string \<Rightarrow> string list" where
  "split_from [] word = (if word = [] then [] else [word])"
| "split_from (c # cs) word =
     (if is_space c then (if word = [] then split_from cs [] else word # split_from cs [])
      else split_from cs (word @ [c]))"

definition py_split :: "string \<Rightarrow> string list" where
  "py_split s = split_from s []"

record launch_spec =
  ls_command :: string
  ls_args :: "string list"
  ls_env :: "(string \<times> string) list option"

text \<open>The value of the key \<open>mcpServers\<close>, the only key of the configuration.\<close>

type_synonym servers = "(string \<times> launch_spec) list"

text \<open>The dictionary comprehension \<open>{var: f"${{{var}}}" for var in env_vars}\<close>.\<close>

definition env_placeholders :: "string list \<Rightarrow> (string \<times> string) list" where
  "env_placeholders vars = fold (\<lambda>var env. AList.update var (''${'' @ var @ ''}'') env) vars []"

definition proxy_path :: string where
  "proxy_path = ''/usr/local/bin/mcp-proxy''"

text \<open>
  The body of the loop of \<open>generate_claude_desktop_config\<close>. Both
  \<open>self.registry['services'][svc['id']]\<close> and \<open>config['mcpServers'][svc['id']]\<close>
  raise \<open>KeyError\<close> on a missing key.
\<close>

definition desktop_config_step :: "registry \<Rightarrow> service \<Rightarrow> servers \<Rightarrow> error + servers" where
  "desktop_config_step reg svc servers =
     (case (if svc_location svc = ''workhorse''
            then Inr (AList.update (svc_id svc)
                        \<lparr> ls_command = ''node'', ls_args = [proxy_path, svc_url svc], ls_env = None \<rparr>
                        servers)
            else (case map_of reg (svc_id svc) of
                    None \<Rightarrow> Inl (KeyError (svc_id svc))
                  | Some service_info \<Rightarrow>
                      (let command_parts =
                             py_split (case info_command service_info of None \<Rightarrow> [] | Some c \<Rightarrow> c)
                       in (case command_parts of
                             [] \<Rightarrow> Inr servers
                           | first # others \<Rightarrow>
                               Inr (AList.update (svc_id svc)
                                      \<lparr> ls_command = first, ls_args = others, ls_env = None \<rparr>
                                      servers)))))
      of Inl e \<Rightarrow> Inl e
       | Inr servers' \<Rightarrow>
           (if svc_env_vars svc \<noteq> []
            then (case map_of servers' (svc_id svc) of
                    None \<Rightarrow> Inl (KeyError (svc_id svc))
                  | Some entry \<Rightarrow>
                      Inr (AList.update (svc_id svc)
                             (entry\<lparr> ls_env := Some (env_placeholders (svc_env_vars svc)) \<rparr>)
                             servers'))
            else Inr servers'))"

fun desktop_config_loop :: "registry \<Rightarrow> service list \<Rightarrow> servers \<Rightarrow> error + servers" where
  "desktop_config_loop reg [] servers = Inr servers"
| "desktop_config_loop reg (svc # rest) servers =
     (case desktop_config_step reg svc servers of
        Inl e \<Rightarrow> Inl e
      | Inr servers' \<Rightarrow> desktop_config_loop reg rest servers')"

definition generate_claude_desktop_config :: "registry \<Rightarrow> profiles_doc \<Rightarrow> string \<Rightarrow> error + servers" where
  "generate_claude_desktop_config reg profs profile =
     (case get_services_for_profile reg profs profile of
        Inl e \<Rightarrow> Inl e
      | Inr services \<Rightarrow> desktop_config_loop reg services [])"

section \<open>The script \<open>generate-claude-config.py\<close>\<close>

definition add_service_to_config :: "servers \<Rightarrow> string \<Rightarrow> service_info \<Rightarrow> error + servers" where
  "add_service_to_config servers service_id service_info =
     (let servers' =
            (if info_location service_info = Some ''workhorse''
             then AList.update service_id
                    \<lparr> ls_command = ''node'',
                      ls_args = [proxy_path, ''http://10.0.0.2:'' @ str_int (info_port service_info)],
                      ls_env = None \<rparr>
                    servers
             else (let command_parts =
                         py_split (case info_command service_info of None \<Rightarrow> [] | Some c \<Rightarrow> c)
                   in (case command_parts of
                         [] \<Rightarrow> servers
                       | first # others \<Rightarrow>
                           AList.update service_id
                             \<lparr> ls_command = first, ls_args = others, ls_env = None \<rparr>
                             servers)))
      in (case info_env_vars service_info of
            None \<Rightarrow> Inr servers'
          | Some vars \<Rightarrow>
              (case map_of servers' service_id of
                 None \<Rightarrow> Inl (KeyError service_id)
               | Some entry \<Rightarrow>
                   Inr (AList.update service_id (entry\<lparr> ls_env := Some (env_placeholders vars) \<rparr>)
                          servers'))))"

text \<open>The wildcard branch of the script: every entry of the registry.\<close>

fun add_all_services :: "registry \<Rightarrow> servers \<Rightarrow> error + servers" where
  "add_all_services [] servers = Inr servers"
| "add_all_services ((sid, svc_info) # rest) servers =
     (case add_service_to_config servers sid svc_info of
        Inl e \<Rightarrow> Inl e
      | Inr servers' \<Rightarrow> add_all_services rest servers')"

fun config_script_loop :: "registry \<Rightarrow> string list \<Rightarrow> servers \<Rightarrow> error + servers" where
  "config_script_loop reg [] servers = Inr servers"
| "config_script_loop reg (service_id # rest) servers =
     (case (if service_id = ''*'' then add_all_services reg servers
            else (case map_of reg service_id of
                    Some svc_info \<Rightarrow> add_service_to_config servers service_id svc_info
                  | None \<Rightarrow> Inr servers))
      of Inl e \<Rightarrow> Inl e
       | Inr servers' \<Rightarrow> config_script_loop reg rest servers')"

text \<open>
  \<open>main\<close> of the script, from the loaded documents on: \<open>SystemExit 1\<close> is its
  \<open>sys.exit(1)\<close> for a profile that is not found.
\<close>

definition generate_claude_config_main :: "registry \<Rightarrow> profiles_doc \<Rightarrow> string \<Rightarrow> error + servers" where
  "generate_claude_config_main reg profs profile_name =
     (case map_of (profiles profs) profile_name of
        None \<Rightarrow> Inl (SystemExit 1)
      | Some profile \<Rightarrow> config_script_loop reg (profile_services profile) [])"

section \<open>The script \<open>generate-context-prompt.py\<close>\<close>

text \<open>The list \<open>services_to_include\<close> of pairs of an identifier and its registry entry.\<close>

fun include_non_restricted :: "registry \<Rightarrow> registry \<Rightarrow> registry" where
  "include_non_restricted [] services_to_include = services_to_include"
| "include_non_restricted ((sid, svc_info) # rest) services_to_include =
     include_non_restricted rest
       (if \<not> get_requires_auth svc_info then services_to_include @ [(sid, svc_info)]
        else services_to_include)"

fun include_services :: "registry \<Rightarrow> string list \<Rightarrow> registry \<Rightarrow> registry" where
  "include_services reg [] services_to_include = services_to_include"
| "include_services reg (service_id # rest) services_to_include =
     include_services reg rest
       (if service_id = ''*'' then include_non_restricted reg services_to_include
        else (case map_of reg service_id of
                Some svc_info \<Rightarrow> services_to_include @ [(service_id, svc_info)]
              | None \<Rightarrow> services_to_include))"

definition get_category :: "service_info \<Rightarrow> string" where
  "get_category service_info = (case info_category service_info of None \<Rightarrow> ''other'' | Some c \<Rightarrow> c)"

fun group_included :: "registry \<Rightarrow> (string \<times> registry) list \<Rightarrow> (string \<times> registry) list" where
  "group_included [] categories = categories"
| "group_included ((service_id, service_info) # rest) categories =
     group_included rest
       (let category = get_category service_info
        in (case map_of categories category of
              None \<Rightarrow> AList.update category ([] @ [(service_id, service_info)]) categories
            | Some entries \<Rightarrow>
                AList.update category (entries @ [(service_id, service_info)]) categories))"

text \<open>The lines that the script appends to \<open>prompt\<close> for one service.\<close>

definition format_included :: "string \<Rightarrow> service_info \<Rightarrow> string" where
  "format_included service_id service_info =
     (let location = get_location service_info;
          host = (if location = ''workhorse'' then ''10.0.0.2'' else ''localhost'')
      in ''**'' @ info_name service_info @ ''** (`'' @ service_id @ ''`)'' @ [nl]
         @ ''- URL: http://'' @ host @ '':'' @ str_int (info_port service_info) @ [nl]
         @ ''- Purpose: '' @ info_description service_info @ [nl]
         @ (if get_requires_auth service_info
            then ''- Note: Requires authentication token'' @ [nl] else [])
         @ [nl])"

fun emit_included :: "registry \<Rightarrow> string \<Rightarrow> string" where
  "emit_included [] prompt = prompt"
| "emit_included ((service_id, service_info) # rest) prompt =
     emit_included rest (prompt @ format_included service_id service_info)"

fun emit_included_categories :: "string list \<Rightarrow> (string \<times> registry) list \<Rightarrow> string \<Rightarrow> string" where
  "emit_included_categories [] categories prompt = prompt"
| "emit_included_categories (category # rest) categories prompt =
     emit_included_categories rest categories
       (case map_of categories category of
          None \<Rightarrow> prompt
        | Some entries \<Rightarrow> emit_included entries (prompt @ category_header category))"

text \<open>
  \<open>main\<close> of the script, from the loaded documents on: the value of \<open>prompt\<close> that it
  prints, or \<open>SystemExit 1\<close> for a profile that is not found.
\<close>

definition generate_context_prompt_main :: "registry \<Rightarrow> profiles_doc \<Rightarrow> string \<Rightarrow> error + string" where
  "generate_context_prompt_main reg profs profile_name =
     (case map_of (profiles profs) profile_name of
        None \<Rightarrow> Inl (SystemExit 1)
      | Some profile \<Rightarrow>
          (let services_to_include = include_services reg (profile_services profile) [];
               categories = group_included services_to_include [];
               prompt = emit_included_categories category_order categories prompt_header
           in Inr (prompt @ closing_sentence)))"

section \<open>Notions of the specification\<close>

text \<open>
  What a wildcard contributes: the entries of the registry that do not require
  authentication, in registry order, each formatted by \<open>_format_service\<close>.
\<close>

definition non_restricted :: "registry \<Rightarrow> service list" where
  "non_restricted reg =
     map (\<lambda>(sid, svc_info). format_service sid svc_info)
       (filter (\<lambda>(sid, svc_info). \<not> get_requires_auth svc_info) reg)"

text \<open>The entries of the script as the services that \<open>_format_service\<close> makes of them.\<close>

definition formatted :: "registry \<Rightarrow> service list" where
  "formatted entries = map (\<lambda>(sid, svc_info). format_service sid svc_info) entries"

text \<open>
  The selector as the specification words it: a rule matches when any condition that it
  specifies matches, and the first matching rule decides.
\<close>

definition spec_path_matches :: "project_context \<Rightarrow> rule_condition \<Rightarrow> bool" where
  "spec_path_matches project_context condition =
     (case project_path_contains condition of
        None \<Rightarrow> False
      | Some sub \<Rightarrow> sublist sub (case map_of project_context ''project_path'' of
                                  None \<Rightarrow> [] | Some p \<Rightarrow> p))"

definition spec_task_matches :: "string \<Rightarrow> rule_condition \<Rightarrow> bool" where
  "spec_task_matches task condition =
     (case task_contains condition of
        None \<Rightarrow> False
      | Some keywords \<Rightarrow> (\<exists>keyword \<in> set keywords. sublist keyword (py_lower task)))"

definition spec_context_matches :: "(project_context \<Rightarrow> string) \<Rightarrow> project_context \<Rightarrow> rule_condition \<Rightarrow> bool" where
  "spec_context_matches py_str project_context condition =
     (case context_contains condition of
        None \<Rightarrow> False
      | Some keywords \<Rightarrow>
          (\<exists>keyword \<in> set keywords. sublist keyword (py_lower (py_str project_context))))"

definition spec_default_matches :: "rule_condition \<Rightarrow> bool" where
  "spec_default_matches condition = (cond_default condition = Some True)"

definition spec_rule_matches :: "(project_context \<Rightarrow> string) \<Rightarrow> string \<Rightarrow> project_context \<Rightarrow> selection_rule \<Rightarrow> bool" where
  "spec_rule_matches py_str task project_context rule =
     (spec_path_matches project_context (rule_cond rule)
      \<or> spec_task_matches task (rule_cond rule)
      \<or> spec_context_matches py_str project_context (rule_cond rule)
      \<or> spec_default_matches (rule_cond rule))"

definition spec_select_profile :: "(project_context \<Rightarrow> string) \<Rightarrow> selection_rule list \<Rightarrow> string \<Rightarrow> project_context \<Rightarrow> string" where
  "spec_select_profile py_str rules task project_context =
     (case find (spec_rule_matches py_str task project_context) rules of
        Some rule \<Rightarrow> rule_profile rule
      | None \<Rightarrow> ''default'')"

text \<open>
  Reading the category headers back from a prompt. The text is cut at its line breaks;
  a line \<open>### T Services\<close> is the header of the category whose name is \<open>T\<close> in lower
  case with a hyphen for every space.
\<close>

fun split_lines :: "string \<Rightarrow> string list" where
  "split_lines [] = [[]]"
| "split_lines (c # cs) =
     (if c = nl then [] # split_lines cs
      else (case split_lines cs of [] \<Rightarrow> [[c]] | l # ls \<Rightarrow> (c # l) # ls))"

definition header_category :: "string \<Rightarrow> string option" where
  "header_category line =
     (if prefix ''### '' line \<and> suffix '' Services'' (drop 4 line)
      then Some (map (\<lambda>c. if c = CHR '' '' then CHR ''-'' else c)
                   (py_lower (take (length line - 13) (drop 4 line))))
      else None)"

definition parse_categories :: "string \<Rightarrow> string list" where
  "parse_categories prompt = List.map_filter header_category (split_lines prompt)"

text \<open>The categories of the fixed order that the services populate.\<close>

definition populated_categories :: "service list \<Rightarrow> string list" where
  "populated_categories services =
     filter (\<lambda>category. category \<in> set (map svc_category services)) category_order"

text \<open>The text of one populated category: its header, then its services in resolved order.\<close>

definition category_block :: "service list \<Rightarrow> string \<Rightarrow> string" where
  "category_block services category =
     category_header category
     @ concat (map format_service_prompt (filter (\<lambda>svc. svc_category svc = category) services))"

text \<open>The header of a category without its line breaks.\<close>

definition header_line :: "string \<Rightarrow> string" where
  "header_line category = ''### '' @ py_title (replace_hyphens category) @ '' Services''"

text \<open>A service whose name, identifier, URL and description have no line break.\<close>

definition single_line :: "service \<Rightarrow> bool" where
  "single_line svc =
     (nl \<notin> set (svc_name svc) \<and> nl \<notin> set (svc_id svc) \<and> nl \<notin> set (svc_url svc)
      \<and> nl \<notin> set (svc_description svc))"

text \<open>A service none of whose rendered lines reads as a category header.\<close>

definition header_free :: "service \<Rightarrow> bool" where
  "header_free svc =
     list_all (\<lambda>line. header_category line = None) (split_lines (format_service_prompt svc))"

section \<open>Example documents\<close>

text \<open>The registry and the profiles of the concrete scenario of the specification.\<close>

definition scenario_registry :: registry where
  "scenario_registry =
     [(''a'', \<lparr> info_name = ''A'', info_description = ''d'', info_port = 1000,
               info_category = None, info_location = Some ''local'',
               info_requires_auth = Some False, info_command = Some ''run-a'',
               info_env_vars = None \<rparr>),
      (''b'', \<lparr> info_name = ''B'', info_description = ''d2'', info_port = 2000,
               info_category = None, info_location = Some ''workhorse'',
               info_requires_auth = Some True, info_command = None,
               info_env_vars = None \<rparr>)]"

definition scenario_profiles :: profiles_doc where
  "scenario_profiles =
     \<lparr> profiles = [(''p1'', \<lparr> profile_services = [''*''] \<rparr>),
                   (''p2'', \<lparr> profile_services = [''b''] \<rparr>)],
       selection_rules = None \<rparr>"

text \<open>Profiles that name a service twice, a missing service, and nothing that exists.\<close>

definition example_profiles :: profiles_doc where
  "example_profiles =
     \<lparr> profiles = [(''dup'', \<lparr> profile_services = [''a'', ''missing'', ''*'', ''a''] \<rparr>),
                   (''none'', \<lparr> profile_services = [''missing''] \<rparr>)],
       selection_rules = None \<rparr>"

text \<open>Selection rules, the third with an empty path substring.\<close>

definition example_rules :: "selection_rule list" where
  "example_rules =
     [\<lparr> rule_cond = \<lparr> project_path_contains = Some ''/work/'', task_contains = None,
                      context_contains = None, cond_default = None \<rparr>,
        rule_profile = ''work'' \<rparr>,
      \<lparr> rule_cond = \<lparr> project_path_contains = None, task_contains = Some [''crawl'', ''search''],
                      context_contains = Some [''research''], cond_default = None \<rparr>,
        rule_profile = ''research'' \<rparr>,
      \<lparr> rule_cond = \<lparr> project_path_contains = Some [], task_contains = None,
                      context_contains = None, cond_default = None \<rparr>,
        rule_profile = ''anywhere'' \<rparr>,
      \<lparr> rule_cond = \<lparr> project_path_contains = None, task_contains = None,
                      context_contains = None, cond_default = Some True \<rparr>,
        rule_profile = ''fallback'' \<rparr>]"

definition example_rule_profiles :: profiles_doc where
  "example_rule_profiles = \<lparr> profiles = [], selection_rules = Some example_rules \<rparr>"

text \<open>A local service with an empty launch command and a required environment variable.\<close>

definition token_registry :: registry where
  "token_registry =
     [(''x'', \<lparr> info_name = ''X'', info_description = ''d'', info_port = 3000,
               info_category = None, info_location = None, info_requires_auth = None,
               info_command = Some [], info_env_vars = Some [''TOKEN''] \<rparr>)]"

definition token_profiles :: profiles_doc where
  "token_profiles = \<lparr> profiles = [(''p'', \<lparr> profile_services = [''x''] \<rparr>)], selection_rules = None \<rparr>"

text \<open>
  Services of the categories search and core and of a category outside the fixed order;
  the description of the first has two lines.
\<close>

definition search_info :: service_info where
  "search_info =
     \<lparr> info_name = ''Search'', info_description = ''web search'' @ [nl] @ ''and news'',
       info_port = 4001,
       info_category = Some ''search'', info_location = None,
       info_requires_auth = None, info_command = None, info_env_vars = None \<rparr>"

definition weather_info :: service_info where
  "weather_info =
     \<lparr> info_name = ''Weather'', info_description = ''forecasts'', info_port = 4002,
       info_category = Some ''weather'', info_location = None,
       info_requires_auth = None, info_command = None, info_env_vars = None \<rparr>"

definition core_info :: service_info where
  "core_info =
     \<lparr> info_name = ''Core'', info_description = ''files'', info_port = 4003,
       info_category = Some ''core'', info_location = Some ''workhorse'',
       info_requires_auth = None, info_command = None, info_env_vars = None \<rparr>"

definition category_registry :: registry where
  "category_registry = [(''s'', search_info), (''w'', weather_info), (''c'', core_info)]"

definition category_profiles :: profiles_doc where
  "category_profiles = \<lparr> profiles = [(''all'', \<lparr> profile_services = [''*''] \<rparr>)], selection_rules = None \<rparr>"

text \<open>
  A service whose description continues with the text of a search category, and the
  two services that this text describes.
\<close>

definition forged_info :: service_info where
  "forged_info =
     \<lparr> info_name = ''N'',
       info_description =
         ''d'' @ [nl, nl] @ ''### Search Services'' @ [nl, nl] @ ''**M** (`j`)'' @ [nl]
         @ ''- URL: http://localhost:4001'' @ [nl] @ ''- Purpose: e'',
       info_port = 4000, info_category = Some ''core'', info_location = None,
       info_requires_auth = None, info_command = None, info_env_vars = None \<rparr>"

definition forged_registry :: registry where
  "forged_registry = [(''n'', forged_info)]"

definition plain_info :: service_info where
  "plain_info =
     \<lparr> info_name = ''N'', info_description = ''d'', info_port = 4000,
       info_category = Some ''core'', info_location = None,
       info_requires_auth = None, info_command = None, info_env_vars = None \<rparr>"

definition second_info :: service_info where
  "second_info =
     \<lparr> info_name = ''M'', info_description = ''e'', info_port = 4001,
       info_category = Some ''search'', info_location = None,
       info_requires_auth = None, info_command = None, info_env_vars = None \<rparr>"

definition plain_registry :: registry where
  "plain_registry = [(''n'', plain_info), (''j'', second_info)]"

section \<open>Properties of the resolver\<close>

lemma add_non_restricted_eq: "add_non_restricted reg acc = acc @ non_restricted reg"
  by (induction reg arbitrary: acc) (auto simp: non_restricted_def)

lemma collect_services_acc: "collect_services reg refs acc = acc @ collect_services reg refs []"
proof (induction refs arbitrary: acc)
  case Nil
  show ?case by simp
next
  case (Cons r refs)
  show ?case
    by (subst (1 2) collect_services.simps, subst (1 2) Cons.IH)
       (simp add: add_non_restricted_eq split: option.splits)
qed

lemma collect_services_append:
  "collect_services reg (xs @ ys) [] = collect_services reg xs [] @ collect_services reg ys []"
proof (induction xs)
  case Nil
  show ?case by simp
next
  case (Cons r xs)
  have "collect_services reg ((r # xs) @ ys) [] = collect_services reg [r] [] @ collect_services reg (xs @ ys) []"
    using collect_services_acc [of reg "xs @ ys" "collect_services reg [r] []"] by simp
  also have "\<dots> = collect_services reg [r] [] @ collect_services reg xs [] @ collect_services reg ys []"
    by (simp only: Cons.IH)
  also have "\<dots> = collect_services reg (r # xs) [] @ collect_services reg ys []"
    using collect_services_acc [of reg "xs" "collect_services reg [r] []"] by simp
  finally show ?case .
qed

lemma collect_wildcard: "collect_services reg [''*''] [] = non_restricted reg"
  by (simp add: add_non_restricted_eq)

lemma collect_literal:
  "sid \<noteq> ''*'' \<Longrightarrow> collect_services reg [sid] [] =
     (case map_of reg sid of Some svc_info \<Rightarrow> [format_service sid svc_info] | None \<Rightarrow> [])"
  by (simp split: option.splits)

text \<open>
  The wildcard of the resolver: at its position stand the entries of the registry that do
  not require authentication, in registry order; none of them requires authentication.
\<close>

lemma wildcard_expansion:
  assumes "map_of (profiles profs) p = Some cfg" and "profile_services cfg = pre @ ''*'' # post"
  shows "get_services_for_profile reg profs p =
           Inr (collect_services reg pre [] @ non_restricted reg @ collect_services reg post [])"
proof -
  have "collect_services reg (pre @ [''*''] @ post) [] =
          collect_services reg pre [] @ collect_services reg [''*''] [] @ collect_services reg post []"
    by (simp only: collect_services_append)
  with assms show ?thesis
    by (simp add: get_services_for_profile_def add_non_restricted_eq)
qed

lemma non_restricted_no_auth: "s \<in> set (non_restricted reg) \<Longrightarrow> \<not> svc_requires_auth s"
  by (auto simp: non_restricted_def format_service_def Let_def)

lemma str_nat_digits: "set (str_nat n) \<subseteq> digit_char ` {..<10}"
proof (induction n rule: str_nat.induct)
  case (1 n)
  show ?case
  proof (cases "n < 10")
    case True
    then show ?thesis by (subst str_nat.simps) auto
  next
    case False
    have "n mod 10 < 10" by simp
    with False 1 show ?thesis by (subst str_nat.simps) auto
  qed
qed

lemma map_of_None_keys: "(map_of al k = None) = (k \<notin> fst ` set al)"
  by (simp add: map_of_eq_None_iff)

text \<open>
  Claim C3. Resolving a profile fails with \<open>ProfileNotFound\<close> exactly when the profile
  name is not a key of the profile set, it fails in no other way, and the prompt renderer
  and the client-configuration renderer hand the same error to their caller: no other
  profile is used in its place.
\<close>

theorem profile_not_found_iff:
  "(get_services_for_profile reg profs p = Inl (ProfileNotFound p)) = (p \<notin> fst ` set (profiles profs))
   \<and> ((\<exists>e. get_services_for_profile reg profs p = Inl e) = (p \<notin> fst ` set (profiles profs)))
   \<and> (p \<notin> fst ` set (profiles profs) \<longrightarrow>
        generate_prompt_section reg profs p include_categories = Inl (ProfileNotFound p)
        \<and> generate_claude_desktop_config reg profs p = Inl (ProfileNotFound p))"
  by (auto simp: get_services_for_profile_def generate_prompt_section_def
        generate_claude_desktop_config_def map_of_None_keys [symmetric] split: option.splits)

theorem profile_not_found_iff_witness:
  "''p3'' \<notin> fst ` set (profiles scenario_profiles)
   \<and> get_services_for_profile scenario_registry scenario_profiles ''p3'' = Inl (ProfileNotFound ''p3'')
   \<and> generate_prompt_section scenario_registry scenario_profiles ''p3'' True = Inl (ProfileNotFound ''p3'')
   \<and> generate_claude_desktop_config scenario_registry scenario_profiles ''p3'' = Inl (ProfileNotFound ''p3'')"
proof -
  have absent: "''p3'' \<notin> fst ` set (profiles scenario_profiles)"
    by (simp add: scenario_profiles_def)
  with profile_not_found_iff [of scenario_registry scenario_profiles "''p3''" True]
  show ?thesis by simp
qed

lemma collected_is_formatted:
  "s \<in> set (collect_services reg refs []) \<Longrightarrow> \<exists>sid svc_info. s = format_service sid svc_info"
proof (induction refs)
  case Nil
  then show ?case by simp
next
  case (Cons r refs)
  from Cons.prems have "s \<in> set (collect_services reg [r] []) \<or> s \<in> set (collect_services reg refs [])"
    using collect_services_append [of reg "[r]" refs] by auto
  then show ?case
  proof
    assume "s \<in> set (collect_services reg [r] [])"
    then show ?thesis
      by (auto simp: add_non_restricted_eq non_restricted_def split: if_splits option.splits)
  next
    assume "s \<in> set (collect_services reg refs [])"
    then show ?thesis by (rule Cons.IH)
  qed
qed

lemma format_service_url:
  "svc_url (format_service sid svc_info) =
     (if svc_location (format_service sid svc_info) = ''workhorse''
      then ''http://10.0.0.2:'' else ''http://localhost:'')
     @ str_int (svc_port (format_service sid svc_info))"
  by (simp add: format_service_def Let_def)

lemma resolved_services:
  "get_services_for_profile reg profs p = Inr services \<Longrightarrow>
     \<exists>refs. services = collect_services reg refs []"
  by (cases "map_of (profiles profs) p") (auto simp: get_services_for_profile_def)

text \<open>
  Claim C5. Every service of a resolved list has the URL \<open>http://10.0.0.2:<port>\<close> when
  its location is \<open>workhorse\<close> and \<open>http://localhost:<port>\<close> otherwise; in the
  scenario of the specification, profile \<open>p2\<close> resolves to exactly the service \<open>b\<close>
  with URL \<open>http://10.0.0.2:2000\<close>.
\<close>

theorem resolved_url:
  "(get_services_for_profile reg profs p = Inr services \<and> s \<in> set services \<longrightarrow>
      svc_url s = (if svc_location s = ''workhorse'' then ''http://10.0.0.2:'' @ str_int (svc_port s)
                   else ''http://localhost:'' @ str_int (svc_port s)))
   \<and> get_services_for_profile scenario_registry scenario_profiles ''p2'' =
       Inr [\<lparr> svc_id = ''b'', svc_name = ''B'', svc_description = ''d2'',
               svc_url = ''http://10.0.0.2:2000'', svc_port = 2000, svc_category = ''other'',
               svc_location = ''workhorse'', svc_requires_auth = True, svc_env_vars = [] \<rparr>]"
proof (intro conjI impI)
  assume a: "get_services_for_profile reg profs p = Inr services \<and> s \<in> set services"
  then obtain refs where "services = collect_services reg refs []"
    using resolved_services by blast
  with a obtain sid svc_info where "s = format_service sid svc_info"
    using collected_is_formatted by blast
  then show "svc_url s = (if svc_location s = ''workhorse'' then ''http://10.0.0.2:'' @ str_int (svc_port s)
                   else ''http://localhost:'' @ str_int (svc_port s))"
    using format_service_url [of sid svc_info] by simp
next
  show "get_services_for_profile scenario_registry scenario_profiles ''p2'' =
       Inr [\<lparr> svc_id = ''b'', svc_name = ''B'', svc_description = ''d2'',
               svc_url = ''http://10.0.0.2:2000'', svc_port = 2000, svc_category = ''other'',
               svc_location = ''workhorse'', svc_requires_auth = True, svc_env_vars = [] \<rparr>]"
    by (simp add: scenario_registry_def scenario_profiles_def get_services_for_profile_def
          format_service_def get_location_def get_requires_auth_def str_int_def str_nat.simps
          digit_char_def)
qed

theorem resolved_url_witness:
  "get_services_for_profile scenario_registry scenario_profiles ''p1'' =
     Inr [format_service ''a'' (snd (hd scenario_registry))]
   \<and> svc_location (format_service ''a'' (snd (hd scenario_registry))) = ''local''
   \<and> svc_url (format_service ''a'' (snd (hd scenario_registry))) = ''http://localhost:1000''"
proof -
  have r: "get_services_for_profile scenario_registry scenario_profiles ''p1'' =
     Inr [format_service ''a'' (snd (hd scenario_registry))]"
    by (simp add: scenario_registry_def scenario_profiles_def get_services_for_profile_def
          get_requires_auth_def)
  have l: "svc_location (format_service ''a'' (snd (hd scenario_registry))) = ''local''"
    by (simp add: scenario_registry_def format_service_def get_location_def Let_def)
  have p: "str_int (svc_port (format_service ''a'' (snd (hd scenario_registry)))) = ''1000''"
    by (simp add: scenario_registry_def format_service_def get_location_def str_int_def
          str_nat.simps digit_char_def Let_def)
  from resolved_url [of scenario_registry scenario_profiles "''p1''"
      "[format_service ''a'' (snd (hd scenario_registry))]"
      "format_service ''a'' (snd (hd scenario_registry))"] r l p
  show ?thesis by simp
qed

lemma format_service_id: "svc_id (format_service sid svc_info) = sid"
  by (simp add: format_service_def Let_def)

lemma format_service_eq_id: "format_service k v = format_service sid svc_info \<Longrightarrow> k = sid"
  using format_service_id [of k v] format_service_id [of sid svc_info] by simp

lemma count_non_restricted_absent:
  "sid \<notin> fst ` set reg \<Longrightarrow> count_list (non_restricted reg) (format_service sid svc_info) = 0"
  by (induction reg) (auto simp: non_restricted_def dest: format_service_eq_id)

lemma count_non_restricted:
  "distinct (map fst reg) \<Longrightarrow> map_of reg sid = Some svc_info \<Longrightarrow>
     count_list (non_restricted reg) (format_service sid svc_info) =
       (if get_requires_auth svc_info then 0 else 1)"
proof (induction reg)
  case Nil
  then show ?case by simp
next
  case (Cons kv reg)
  obtain k v where kv: "kv = (k, v)" by (cases kv)
  have split: "non_restricted (kv # reg) = non_restricted [kv] @ non_restricted reg"
    by (simp add: non_restricted_def)
  show ?case
  proof (cases "k = sid")
    case True
    with Cons.prems kv have v: "v = svc_info" and absent: "sid \<notin> fst ` set reg" by auto
    from absent have "count_list (non_restricted reg) (format_service sid svc_info) = 0"
      by (rule count_non_restricted_absent)
    with True v kv split show ?thesis by (simp add: non_restricted_def)
  next
    case False
    with Cons.prems kv have "distinct (map fst reg)" and "map_of reg sid = Some svc_info" by auto
    then have "count_list (non_restricted reg) (format_service sid svc_info) =
       (if get_requires_auth svc_info then 0 else 1)" by (rule Cons.IH)
    moreover from False have "count_list (non_restricted [kv]) (format_service sid svc_info) = 0"
      by (auto simp: non_restricted_def kv dest: format_service_eq_id)
    ultimately show ?thesis using split by simp
  qed
qed

lemma count_collect_services:
  assumes "distinct (map fst reg)" and "map_of reg sid = Some svc_info" and "sid \<noteq> ''*''"
  shows "count_list (collect_services reg refs []) (format_service sid svc_info) =
           count_list refs sid + (if get_requires_auth svc_info then 0 else count_list refs ''*'')"
proof (induction refs)
  case Nil
  show ?case by simp
next
  case (Cons r refs)
  have split: "collect_services reg (r # refs) [] = collect_services reg [r] [] @ collect_services reg refs []"
    using collect_services_append [of reg "[r]" refs] by simp
  have one: "count_list (collect_services reg [r] []) (format_service sid svc_info) =
               (if r = sid then 1 else 0) + (if get_requires_auth svc_info then 0 else if r = ''*'' then 1 else 0)"
  proof (cases "r = ''*''")
    case True
    with assms show ?thesis by (simp add: add_non_restricted_eq count_non_restricted)
  next
    case False
    with assms show ?thesis
      by (auto simp: collect_literal split: option.splits dest: format_service_eq_id)
  qed
  show ?case unfolding split using one Cons.IH by simp
qed

text \<open>
  Claim C6. A literal identifier of the allowed-service list contributes the registry
  entry of that name, formatted, between the services of the identifiers before it and
  of those after it; an identifier that is not in the registry contributes nothing and
  raises no error. Nothing is removed: an entry of the registry appears as often as the
  list names it, once more for every wildcard that covers it.
\<close>

theorem literal_references:
  "map_of (profiles profs) p = Some cfg \<and> sid \<noteq> ''*'' \<longrightarrow>
     (profile_services cfg = pre @ sid # post \<longrightarrow>
        get_services_for_profile reg profs p =
          Inr (collect_services reg pre []
               @ (case map_of reg sid of Some svc_info \<Rightarrow> [format_service sid svc_info] | None \<Rightarrow> [])
               @ collect_services reg post []))
     \<and> (distinct (map fst reg) \<and> map_of reg sid = Some sinfo \<longrightarrow>
          (\<exists>services. get_services_for_profile reg profs p = Inr services
             \<and> count_list services (format_service sid sinfo) =
                 count_list (profile_services cfg) sid
                 + (if get_requires_auth sinfo then 0 else count_list (profile_services cfg) ''*'')))"
proof (intro impI conjI)
  assume a: "map_of (profiles profs) p = Some cfg \<and> sid \<noteq> ''*''"
  assume b: "profile_services cfg = pre @ sid # post"
  have "collect_services reg (pre @ [sid] @ post) [] =
          collect_services reg pre [] @ collect_services reg [sid] [] @ collect_services reg post []"
    by (simp only: collect_services_append)
  with a b show "get_services_for_profile reg profs p =
          Inr (collect_services reg pre []
               @ (case map_of reg sid of Some svc_info \<Rightarrow> [format_service sid svc_info] | None \<Rightarrow> [])
               @ collect_services reg post [])"
    by (simp add: get_services_for_profile_def collect_literal split: option.splits)
next
  assume a: "map_of (profiles profs) p = Some cfg \<and> sid \<noteq> ''*''"
  assume b: "distinct (map fst reg) \<and> map_of reg sid = Some sinfo"
  from a have "get_services_for_profile reg profs p = Inr (collect_services reg (profile_services cfg) [])"
    by (simp add: get_services_for_profile_def)
  moreover from a b have "count_list (collect_services reg (profile_services cfg) []) (format_service sid sinfo) =
                 count_list (profile_services cfg) sid
                 + (if get_requires_auth sinfo then 0 else count_list (profile_services cfg) ''*'')"
    by (intro count_collect_services) simp_all
  ultimately show "\<exists>services. get_services_for_profile reg profs p = Inr services
             \<and> count_list services (format_service sid sinfo) =
                 count_list (profile_services cfg) sid
                 + (if get_requires_auth sinfo then 0 else count_list (profile_services cfg) ''*'')"
    by blast
qed

theorem literal_references_witness:
  "map_of (profiles example_profiles) ''dup'' = Some \<lparr> profile_services = [''a'', ''missing'', ''*'', ''a''] \<rparr>
   \<and> map_of scenario_registry ''missing'' = None
   \<and> distinct (map fst scenario_registry)
   \<and> map_of scenario_registry ''a'' = Some (snd (hd scenario_registry))
   \<and> \<not> get_requires_auth (snd (hd scenario_registry))
   \<and> get_services_for_profile scenario_registry example_profiles ''dup'' =
       Inr [format_service ''a'' (snd (hd scenario_registry)),
            format_service ''a'' (snd (hd scenario_registry)),
            format_service ''a'' (snd (hd scenario_registry))]
   \<and> count_list [format_service ''a'' (snd (hd scenario_registry)),
            format_service ''a'' (snd (hd scenario_registry)),
            format_service ''a'' (snd (hd scenario_registry))]
         (format_service ''a'' (snd (hd scenario_registry))) = 3"
proof -
  let ?cfg = "\<lparr> profile_services = [''a'', ''missing'', ''*'', ''a''] \<rparr>"
  let ?a = "snd (hd scenario_registry)"
  have p: "map_of (profiles example_profiles) ''dup'' = Some ?cfg"
    by (simp add: example_profiles_def)
  have m: "map_of scenario_registry ''missing'' = None"
    by (simp add: scenario_registry_def)
  have d: "distinct (map fst scenario_registry)"
    by (simp add: scenario_registry_def)
  have a: "map_of scenario_registry ''a'' = Some ?a"
    by (simp add: scenario_registry_def)
  have n: "\<not> get_requires_auth ?a"
    by (simp add: scenario_registry_def get_requires_auth_def)
  have pre: "collect_services scenario_registry [''a''] [] = [format_service ''a'' ?a]"
    using a by simp
  have post: "collect_services scenario_registry [''*'', ''a''] [] =
                [format_service ''a'' ?a, format_service ''a'' ?a]"
    by (simp add: scenario_registry_def get_requires_auth_def)
  have ne1: "''missing'' \<noteq> ''*''" and ne2: "''a'' \<noteq> ''*''" by simp_all
  have dec: "profile_services ?cfg = [''a''] @ ''missing'' # [''*'', ''a'']" by simp
  from literal_references [of example_profiles "''dup''" ?cfg "''missing''" "[''a'']" "[''*'', ''a'']"
      scenario_registry ?a] p ne1 dec
  have "get_services_for_profile scenario_registry example_profiles ''dup'' =
          Inr (collect_services scenario_registry [''a''] []
               @ (case map_of scenario_registry ''missing'' of
                    Some svc_info \<Rightarrow> [format_service ''missing'' svc_info] | None \<Rightarrow> [])
               @ collect_services scenario_registry [''*'', ''a''] [])"
    by blast
  then have r: "get_services_for_profile scenario_registry example_profiles ''dup'' =
       Inr [format_service ''a'' ?a, format_service ''a'' ?a, format_service ''a'' ?a]"
    by (simp only: pre post m option.case append.simps)
  from literal_references [of example_profiles "''dup''" ?cfg "''a''" "[]" "[''missing'', ''*'', ''a'']"
      scenario_registry ?a] p ne2 d a
  obtain services where s: "get_services_for_profile scenario_registry example_profiles ''dup'' = Inr services"
    and c: "count_list services (format_service ''a'' ?a) =
              count_list (profile_services ?cfg) ''a''
              + (if get_requires_auth ?a then 0 else count_list (profile_services ?cfg) ''*'')"
    by blast
  from s r have "services = [format_service ''a'' ?a, format_service ''a'' ?a, format_service ''a'' ?a]"
    by simp
  with c n have "count_list [format_service ''a'' ?a, format_service ''a'' ?a, format_service ''a'' ?a]
          (format_service ''a'' ?a) = 3"
    by simp
  with p m d a n r show ?thesis by (intro conjI)
qed

section \<open>Properties of the profile selector\<close>

lemma py_contains_sublist: "py_contains needle haystack = sublist needle haystack"
  by (induction haystack) (simp_all add: sublist_Cons_right)

lemma rule_step_matches:
  "rule_step py_str task project_context rule =
     (if spec_rule_matches py_str task project_context rule then Some (rule_profile rule) else None)"
  by (auto simp: rule_step_def spec_rule_matches_def spec_path_matches_def spec_task_matches_def
        spec_context_matches_def spec_default_matches_def py_contains_sublist list_ex_iff Let_def
        split: option.splits)

lemma rules_loop_find:
  "rules_loop py_str task project_context rules =
     map_option rule_profile (find (spec_rule_matches py_str task project_context) rules)"
  by (induction rules) (simp_all add: rule_step_matches)

lemma rules_loop_append:
  "rules_loop py_str task project_context (pre @ rest) =
     (case rules_loop py_str task project_context pre of
        Some p \<Rightarrow> Some p
      | None \<Rightarrow> rules_loop py_str task project_context rest)"
  by (induction pre) (simp_all split: option.splits)

text \<open>
  Claim C4. The selector returns the target profile of the first rule, in declared
  order, one of whose present conditions matches (the path substring is contained in
  the project path, taken empty when absent; a task keyword occurs in the lower-cased
  task; a context keyword occurs in the lower-cased rendering of the context; the
  default flag is true), and \<open>default\<close> when no rule matches.
\<close>

theorem selects_first_matching_rule:
  "determine_profile py_str profs task project_context =
     spec_select_profile py_str (get_selection_rules profs) task project_context"
  by (simp add: determine_profile_def spec_select_profile_def rules_loop_find split: option.splits)

theorem selects_first_matching_rule_witness:
  "determine_profile (\<lambda>c. ''{}'') example_rule_profiles ''Please SEARCH the web'' [] = ''research''
   \<and> spec_select_profile (\<lambda>c. ''{}'') example_rules ''Please SEARCH the web'' [] = ''research''
   \<and> determine_profile (\<lambda>c. ''{}'') \<lparr> profiles = [], selection_rules = None \<rparr> ''task'' [] = ''default''"
proof -
  have "determine_profile (\<lambda>c. ''{}'') example_rule_profiles ''Please SEARCH the web'' [] = ''research''"
    by code_simp
  moreover have "determine_profile (\<lambda>c. ''{}'') \<lparr> profiles = [], selection_rules = None \<rparr> ''task'' [] = ''default''"
    by code_simp
  moreover have "get_selection_rules example_rule_profiles = example_rules"
    by (simp add: get_selection_rules_def example_rule_profiles_def)
  ultimately show ?thesis
    using selects_first_matching_rule [of "\<lambda>c. ''{}''" example_rule_profiles "''Please SEARCH the web''" "[]"]
    by simp
qed

text \<open>
  Claim C10. A path condition whose configured substring is empty matches every
  context, also one without a \<open>project_path\<close> entry: when no earlier rule has returned,
  the selector returns that rule's profile, whatever the task and the context are.
\<close>

theorem empty_path_condition_matches:
  "project_path_contains (rule_cond rule) = Some [] \<and> get_selection_rules profs = pre @ rule # post
   \<and> rules_loop py_str task project_context pre = None
   \<longrightarrow> py_contains [] (case map_of project_context ''project_path'' of None \<Rightarrow> [] | Some p \<Rightarrow> p)
       \<and> rule_step py_str task project_context rule = Some (rule_profile rule)
       \<and> determine_profile py_str profs task project_context = rule_profile rule"
proof (intro impI conjI)
  show c: "py_contains [] (case map_of project_context ''project_path'' of None \<Rightarrow> [] | Some p \<Rightarrow> p)"
    by (simp add: py_contains_sublist)
  assume a: "project_path_contains (rule_cond rule) = Some [] \<and> get_selection_rules profs = pre @ rule # post
   \<and> rules_loop py_str task project_context pre = None"
  with c show s: "rule_step py_str task project_context rule = Some (rule_profile rule)"
    by (simp add: rule_step_def Let_def)
  from a s show "determine_profile py_str profs task project_context = rule_profile rule"
    by (simp add: determine_profile_def rules_loop_append)
qed

theorem empty_path_condition_matches_witness:
  "project_path_contains (rule_cond (example_rules ! 2)) = Some []
   \<and> get_selection_rules example_rule_profiles = take 2 example_rules @ example_rules ! 2 # drop 3 example_rules
   \<and> rules_loop (\<lambda>c. ''{}'') ''Deploy it'' [] (take 2 example_rules) = None
   \<and> determine_profile (\<lambda>c. ''{}'') example_rule_profiles ''Deploy it'' [] = ''anywhere''"
proof -
  have 1: "project_path_contains (rule_cond (example_rules ! 2)) = Some []"
    by (simp add: example_rules_def)
  have 2: "get_selection_rules example_rule_profiles = take 2 example_rules @ example_rules ! 2 # drop 3 example_rules"
    by (simp add: get_selection_rules_def example_rule_profiles_def example_rules_def)
  have 3: "rules_loop (\<lambda>c. ''{}'') ''Deploy it'' [] (take 2 example_rules) = None"
    by code_simp
  have 4: "rule_profile (example_rules ! 2) = ''anywhere''"
    by (simp add: example_rules_def)
  from empty_path_condition_matches [of "example_rules ! 2" example_rule_profiles "take 2 example_rules"
      "drop 3 example_rules" "\<lambda>c. ''{}''" "''Deploy it''" "[]"] 1 2 3 4
  show ?thesis by simp
qed

section \<open>Properties of the prompt renderer\<close>

lemma emit_services_eq:
  "emit_services svcs prompt = prompt @ concat (map format_service_prompt svcs)"
  by (induction svcs arbitrary: prompt) simp_all

lemma emit_categories_acc:
  "emit_categories cats categories prompt = prompt @ emit_categories cats categories []"
proof (induction cats arbitrary: prompt)
  case Nil
  show ?case by simp
next
  case (Cons c cats)
  show ?case
    by (subst (1 2) emit_categories.simps, subst (1 2) Cons.IH)
       (simp add: emit_services_eq split: option.splits)
qed

text \<open>
  Claim C7. For the empty service list and grouping by category the renderer returns
  exactly the sentence that no services are available; the header line is no part of
  it. The prompt of a profile that resolves to no service is that sentence.
\<close>

theorem empty_prompt:
  "render_prompt [] True = CHR 0x0A # ''No MCP services are available for this task.''
   \<and> \<not> sublist ''You have access to the following MCP services:'' (render_prompt [] True)
   \<and> (get_services_for_profile reg profs p = Inr [] \<longrightarrow>
        generate_prompt_section reg profs p True =
          Inr (CHR 0x0A # ''No MCP services are available for this task.''))"
proof (intro conjI impI)
  show r: "render_prompt [] True = CHR 0x0A # ''No MCP services are available for this task.''"
    by (simp add: render_prompt_def no_services_sentence_def nl_def)
  show "\<not> sublist ''You have access to the following MCP services:'' (render_prompt [] True)"
    unfolding r by (simp add: sublist_code)
  assume "get_services_for_profile reg profs p = Inr []"
  with r show "generate_prompt_section reg profs p True =
          Inr (CHR 0x0A # ''No MCP services are available for this task.'')"
    by (simp add: generate_prompt_section_def)
qed

theorem empty_prompt_witness:
  "get_services_for_profile scenario_registry example_profiles ''none'' = Inr []
   \<and> generate_prompt_section scenario_registry example_profiles ''none'' True =
       Inr (CHR 0x0A # ''No MCP services are available for this task.'')"
proof -
  have "get_services_for_profile scenario_registry example_profiles ''none'' = Inr []"
    by (simp add: get_services_for_profile_def example_profiles_def scenario_registry_def)
  with empty_prompt [of scenario_registry example_profiles "''none''"] show ?thesis by simp
qed

text \<open>
  Claim C9, as the code has it. For every service list that is not empty the rendered
  text ends with the closing sentence, grouped by category or not. For the empty list
  the renderer returns the sentence that no services are available alone, grouped by
  category or not.
\<close>

theorem closing_sentence_last:
  "(services \<noteq> [] \<longrightarrow> suffix closing_sentence (render_prompt services include_categories))
   \<and> render_prompt [] include_categories =
       CHR 0x0A # ''No MCP services are available for this task.''"
  by (simp add: render_prompt_def Let_def suffix_def no_services_sentence_def nl_def)

theorem closing_sentence_last_witness:
  "[format_service ''a'' (snd (hd scenario_registry))] \<noteq> []
   \<and> suffix closing_sentence (render_prompt [format_service ''a'' (snd (hd scenario_registry))] True)
   \<and> suffix closing_sentence (render_prompt [format_service ''a'' (snd (hd scenario_registry))] False)"
  using closing_sentence_last [of "[format_service ''a'' (snd (hd scenario_registry))]" True]
    closing_sentence_last [of "[format_service ''a'' (snd (hd scenario_registry))]" False]
  by simp

theorem closing_sentence_empty_counterexample:
  "\<not> suffix closing_sentence (render_prompt [] True)"
  by (simp add: render_prompt_def no_services_sentence_def closing_sentence_def nl_def suffix_to_prefix)

section \<open>Properties of the client configuration\<close>

text \<open>
  Claim C1, at the scenario of the specification. Profile \<open>p1\<close> lists the wildcard alone
  and service \<open>b\<close> requires authentication. The resolver leaves \<open>b\<close> out, and so does the
  client configuration of \<open>generate_claude_desktop_config\<close>; the wildcard of the script
  \<open>generate-claude-config.py\<close> adds every entry of the registry, \<open>b\<close> among them.
\<close>

theorem script_wildcard_adds_restricted:
  "get_services_for_profile scenario_registry scenario_profiles ''p1'' =
     Inr [format_service ''a'' (snd (hd scenario_registry))]
   \<and> generate_claude_desktop_config scenario_registry scenario_profiles ''p1'' =
       Inr [(''a'', \<lparr> ls_command = ''run-a'', ls_args = [], ls_env = None \<rparr>)]
   \<and> generate_claude_config_main scenario_registry scenario_profiles ''p1'' =
       Inr [(''a'', \<lparr> ls_command = ''run-a'', ls_args = [], ls_env = None \<rparr>),
            (''b'', \<lparr> ls_command = ''node'',
                     ls_args = [''/usr/local/bin/mcp-proxy'', ''http://10.0.0.2:2000''],
                     ls_env = None \<rparr>)]"
proof (intro conjI)
  show "get_services_for_profile scenario_registry scenario_profiles ''p1'' =
     Inr [format_service ''a'' (snd (hd scenario_registry))]"
    by (simp add: scenario_registry_def scenario_profiles_def get_services_for_profile_def
          get_requires_auth_def)
  show "generate_claude_desktop_config scenario_registry scenario_profiles ''p1'' =
       Inr [(''a'', \<lparr> ls_command = ''run-a'', ls_args = [], ls_env = None \<rparr>)]"
    by code_simp
  show "generate_claude_config_main scenario_registry scenario_profiles ''p1'' =
       Inr [(''a'', \<lparr> ls_command = ''run-a'', ls_args = [], ls_env = None \<rparr>),
            (''b'', \<lparr> ls_command = ''node'',
                     ls_args = [''/usr/local/bin/mcp-proxy'', ''http://10.0.0.2:2000''],
                     ls_env = None \<rparr>)]"
    by code_simp
qed

text \<open>
  One step of \<open>generate_claude_desktop_config\<close> at a local service whose launch command
  has no token: without required environment variables the configuration is unchanged;
  with them, and no earlier entry of that name, the step raises \<open>KeyError\<close>.
\<close>

lemma empty_command_step:
  assumes "svc_location svc \<noteq> ''workhorse''" and "map_of reg (svc_id svc) = Some service_info"
    and "py_split (case info_command service_info of None \<Rightarrow> [] | Some c \<Rightarrow> c) = []"
  shows "desktop_config_step reg svc servers =
           (if svc_env_vars svc = [] then Inr servers
            else (case map_of servers (svc_id svc) of
                    None \<Rightarrow> Inl (KeyError (svc_id svc))
                  | Some entry \<Rightarrow>
                      Inr (AList.update (svc_id svc)
                             (entry\<lparr> ls_env := Some (env_placeholders (svc_env_vars svc)) \<rparr>)
                             servers)))"
  using assms by (simp add: desktop_config_step_def Let_def)

text \<open>
  Claim C2, at a local service with an empty launch command and one required
  environment variable. No entry is written for the service, and attaching the \<open>env\<close>
  mapping to the missing entry raises \<open>KeyError\<close>, in \<open>generate_claude_desktop_config\<close>
  and in the script alike.
\<close>

theorem env_without_entry_fails:
  "get_services_for_profile token_registry token_profiles ''p'' =
     Inr [format_service ''x'' (snd (hd token_registry))]
   \<and> svc_location (format_service ''x'' (snd (hd token_registry))) = ''local''
   \<and> svc_env_vars (format_service ''x'' (snd (hd token_registry))) = [''TOKEN'']
   \<and> generate_claude_desktop_config token_registry token_profiles ''p'' = Inl (KeyError ''x'')
   \<and> generate_claude_config_main token_registry token_profiles ''p'' = Inl (KeyError ''x'')"
proof (intro conjI)
  show "get_services_for_profile token_registry token_profiles ''p'' =
     Inr [format_service ''x'' (snd (hd token_registry))]"
    by (simp add: token_registry_def token_profiles_def get_services_for_profile_def)
  show "svc_location (format_service ''x'' (snd (hd token_registry))) = ''local''"
    by (simp add: token_registry_def format_service_def get_location_def Let_def)
  show "svc_env_vars (format_service ''x'' (snd (hd token_registry))) = [''TOKEN'']"
    by (simp add: token_registry_def format_service_def Let_def)
  show "generate_claude_desktop_config token_registry token_profiles ''p'' = Inl (KeyError ''x'')"
    by code_simp
  show "generate_claude_config_main token_registry token_profiles ''p'' = Inl (KeyError ''x'')"
    by code_simp
qed

section \<open>Properties of the grouped prompt\<close>

lemma map_of_group_by_category:
  "map_of (group_by_category services acc) c =
     (case map_of acc c of
        None \<Rightarrow> (if c \<in> set (map svc_category services)
                 then Some (filter (\<lambda>svc. svc_category svc = c) services) else None)
      | Some svcs \<Rightarrow> Some (svcs @ filter (\<lambda>svc. svc_category svc = c) services))"
proof (induction services arbitrary: acc)
  case Nil
  show ?case by (simp split: option.splits)
next
  case (Cons s services)
  show ?case
    by (simp add: Cons.IH Let_def update_conv' split: option.splits)
qed

lemma emit_categories_eq:
  "emit_categories cats categories [] =
     concat (map (\<lambda>c. case map_of categories c of
                         None \<Rightarrow> []
                       | Some svcs \<Rightarrow> category_header c @ concat (map format_service_prompt svcs)) cats)"
proof (induction cats)
  case Nil
  show ?case by simp
next
  case (Cons c cats)
  show ?case
    by (subst emit_categories.simps, subst emit_categories_acc)
       (simp add: Cons.IH emit_services_eq split: option.splits)
qed

lemma concat_map_filter_blocks:
  "concat (map (\<lambda>c. if P c then f c else []) cs) = concat (map f (filter P cs))"
  by (induction cs) simp_all

lemma grouped_body:
  "emit_categories category_order (group_by_category services []) [] =
     concat (map (category_block services) (populated_categories services))"
proof -
  have "(\<lambda>c. case map_of (group_by_category services []) c of
                None \<Rightarrow> []
              | Some svcs \<Rightarrow> category_header c @ concat (map format_service_prompt svcs))
        = (\<lambda>c. if c \<in> set (map svc_category services) then category_block services c else [])"
    by (rule ext) (simp add: map_of_group_by_category category_block_def)
  then show ?thesis
    by (simp only: emit_categories_eq populated_categories_def concat_map_filter_blocks)
qed

lemma render_prompt_grouped:
  "services \<noteq> [] \<Longrightarrow>
     render_prompt services True =
       prompt_header @ concat (map (category_block services) (populated_categories services))
       @ closing_sentence"
  using emit_categories_acc [of category_order "group_by_category services []" prompt_header]
  by (simp add: render_prompt_def Let_def grouped_body)

lemma split_lines_nonempty: "split_lines s \<noteq> []"
  by (induction s) (auto split: list.splits)

lemma split_lines_line:
  "nl \<notin> set l \<Longrightarrow> split_lines (l @ nl # rest) = l # split_lines rest"
  by (induction l) (auto simp: split_lines_nonempty split: list.splits)

lemma parse_categories_line:
  "nl \<notin> set l \<Longrightarrow>
     parse_categories (l @ nl # rest) =
       (case header_category l of None \<Rightarrow> [] | Some c \<Rightarrow> [c]) @ parse_categories rest"
  by (simp add: parse_categories_def split_lines_line split: option.splits)

lemma header_category_no_prefix: "\<not> prefix ''### '' l \<Longrightarrow> header_category l = None"
  by (simp add: header_category_def)

lemma parse_categories_skip:
  "nl \<notin> set l \<Longrightarrow> \<not> prefix ''### '' l \<Longrightarrow>
     parse_categories (l @ nl # rest) = parse_categories rest"
  by (simp add: parse_categories_line header_category_no_prefix)

lemma parse_categories_Nil: "parse_categories [] = []"
  by (simp add: parse_categories_def header_category_def)

lemma parse_categories_blank: "parse_categories (nl # rest) = parse_categories rest"
  using parse_categories_skip [of "[]" rest] by simp

lemma parse_categories_service:
  assumes "single_line svc"
  shows "parse_categories (format_service_prompt svc @ rest) = parse_categories rest"
proof -
  let ?l1 = "''**'' @ svc_name svc @ ''** (`'' @ svc_id svc @ ''`)''"
  let ?l2 = "''- URL: '' @ svc_url svc"
  let ?l3 = "''- Purpose: '' @ svc_description svc"
  let ?l4 = "''- Note: Requires authentication token''"
  from assms have n1: "nl \<notin> set ?l1" and n2: "nl \<notin> set ?l2" and n3: "nl \<notin> set ?l3"
    and n4: "nl \<notin> set ?l4"
    by (simp_all add: single_line_def nl_def)
  have p1: "\<not> prefix ''### '' ?l1" and p2: "\<not> prefix ''### '' ?l2"
    and p3: "\<not> prefix ''### '' ?l3" and p4: "\<not> prefix ''### '' ?l4"
    by simp_all
  show ?thesis
  proof (cases "svc_requires_auth svc")
    case True
    then have "format_service_prompt svc @ rest =
                 ?l1 @ nl # (?l2 @ nl # (?l3 @ nl # (?l4 @ nl # (nl # rest))))"
      by (simp add: format_service_prompt_def)
    then show ?thesis
      by (simp only: parse_categories_skip [OF n1 p1] parse_categories_skip [OF n2 p2]
            parse_categories_skip [OF n3 p3] parse_categories_skip [OF n4 p4]
            parse_categories_blank)
  next
    case False
    then have "format_service_prompt svc @ rest =
                 ?l1 @ nl # (?l2 @ nl # (?l3 @ nl # (nl # rest)))"
      by (simp add: format_service_prompt_def)
    then show ?thesis
      by (simp only: parse_categories_skip [OF n1 p1] parse_categories_skip [OF n2 p2]
            parse_categories_skip [OF n3 p3] parse_categories_blank)
  qed
qed

lemma parse_categories_services:
  "\<forall>svc \<in> set svcs. single_line svc \<Longrightarrow>
     parse_categories (concat (map format_service_prompt svcs) @ rest) = parse_categories rest"
  by (induction svcs) (simp_all add: parse_categories_service)

lemma known_header_lines:
  "\<forall>c \<in> set category_order. nl \<notin> set (header_line c) \<and> header_category (header_line c) = Some c"
  by code_simp

lemma parse_categories_header:
  assumes "c \<in> set category_order"
  shows "parse_categories (category_header c @ rest) = c # parse_categories rest"
proof -
  from assms known_header_lines
  have n: "nl \<notin> set (header_line c)" and h: "header_category (header_line c) = Some c"
    by blast+
  have "category_header c @ rest = header_line c @ nl # (nl # rest)"
    by (simp add: category_header_def header_line_def)
  then show ?thesis
    by (simp only: parse_categories_line [OF n] h parse_categories_blank) simp
qed

lemma parse_categories_block:
  assumes "c \<in> set category_order" and "\<forall>svc \<in> set services. single_line svc"
  shows "parse_categories (category_block services c @ rest) = c # parse_categories rest"
proof -
  from assms(2) have "\<forall>svc \<in> set (filter (\<lambda>svc. svc_category svc = c) services). single_line svc"
    by simp
  then show ?thesis
    by (simp add: category_block_def parse_categories_header [OF assms(1)] parse_categories_services)
qed

lemma parse_categories_blocks:
  assumes "\<forall>svc \<in> set services. single_line svc"
  shows "set cs \<subseteq> set category_order \<Longrightarrow>
           parse_categories (concat (map (category_block services) cs) @ rest) =
             cs @ parse_categories rest"
  by (induction cs) (simp_all add: parse_categories_block assms)

lemma parse_categories_prompt_header:
  "parse_categories (prompt_header @ rest) = parse_categories rest"
proof -
  let ?l = "''You have access to the following MCP services:''"
  have n: "nl \<notin> set ?l" by (simp add: nl_def)
  have p: "\<not> prefix ''### '' ?l" by simp
  have "prompt_header @ rest = nl # (?l @ nl # (nl # rest))"
    by (simp add: prompt_header_def)
  then show ?thesis
    by (simp only: parse_categories_blank parse_categories_skip [OF n p])
qed

lemma parse_categories_closing: "parse_categories closing_sentence = []"
proof -
  let ?l = "''Only use the MCP services listed above. Do not attempt to access any other services.''"
  have n: "nl \<notin> set ?l" by (simp add: nl_def)
  have p: "\<not> prefix ''### '' ?l" by simp
  have e: "closing_sentence = ?l @ nl # []" by (simp add: closing_sentence_def)
  show ?thesis
    by (subst e) (simp only: parse_categories_skip [OF n p] parse_categories_Nil)
qed

lemma parse_grouped_text:
  assumes "\<forall>svc \<in> set services. single_line svc"
  shows "parse_categories
           (prompt_header @ concat (map (category_block services) (populated_categories services))
            @ closing_sentence) = populated_categories services"
proof -
  have sub: "set (populated_categories services) \<subseteq> set category_order"
    by (simp add: populated_categories_def)
  show ?thesis
    by (simp only: parse_categories_prompt_header parse_categories_blocks [OF assms sub]
          parse_categories_closing append_Nil2)
qed

lemma parse_render_prompt:
  assumes "services \<noteq> []" and "\<forall>svc \<in> set services. single_line svc"
  shows "parse_categories (render_prompt services True) = populated_categories services"
  by (simp only: render_prompt_grouped [OF assms(1)] parse_grouped_text [OF assms(2)])

text \<open>
  The headers read back from a text are those of its blocks, each followed by the
  headers that the lines of its services read as.
\<close>

lemma map_filter_Nil_iff: "(List.map_filter f xs = []) = list_all (\<lambda>x. f x = None) xs"
  by (induction xs) (auto split: option.splits)

lemma header_free_parse: "header_free svc = (parse_categories (format_service_prompt svc) = [])"
  by (simp add: header_free_def parse_categories_def map_filter_Nil_iff)

lemma parse_categories_cut_from:
  "nl \<notin> set l \<Longrightarrow>
     parse_categories (l @ a @ nl # b) = parse_categories (l @ a @ [nl]) @ parse_categories b"
proof (induction a arbitrary: l)
  case Nil
  then show ?case
    using parse_categories_line [of l b] parse_categories_line [of l "[]"]
    by (simp add: parse_categories_Nil)
next
  case (Cons c a)
  show ?case
  proof (cases "c = nl")
    case True
    have "parse_categories ([] @ a @ nl # b) = parse_categories ([] @ a @ [nl]) @ parse_categories b"
      by (rule Cons.IH) simp
    with True Cons.prems show ?thesis
      using parse_categories_line [of l "a @ nl # b"] parse_categories_line [of l "a @ [nl]"]
      by simp
  next
    case False
    with Cons.prems have "nl \<notin> set (l @ [c])" by simp
    then have "parse_categories ((l @ [c]) @ a @ nl # b) =
                 parse_categories ((l @ [c]) @ a @ [nl]) @ parse_categories b"
      by (rule Cons.IH)
    then show ?thesis by simp
  qed
qed

lemma parse_categories_cut:
  "parse_categories (a @ nl # b) = parse_categories (a @ [nl]) @ parse_categories b"
  using parse_categories_cut_from [of "[]" a b] by simp

lemma parse_categories_service_text:
  "parse_categories (format_service_prompt svc @ rest) =
     parse_categories (format_service_prompt svc) @ parse_categories rest"
proof -
  obtain body where b: "format_service_prompt svc = body @ [nl]"
    by (simp add: format_service_prompt_def Let_def)
  show ?thesis unfolding b using parse_categories_cut [of body rest] by simp
qed

lemma parse_categories_services_text:
  "parse_categories (concat (map format_service_prompt svcs) @ rest) =
     concat (map (\<lambda>svc. parse_categories (format_service_prompt svc)) svcs) @ parse_categories rest"
proof (induction svcs)
  case Nil
  show ?case by simp
next
  case (Cons svc svcs)
  have "parse_categories (concat (map format_service_prompt (svc # svcs)) @ rest) =
          parse_categories (format_service_prompt svc @ (concat (map format_service_prompt svcs) @ rest))"
    by simp
  also have "\<dots> = parse_categories (format_service_prompt svc)
                   @ parse_categories (concat (map format_service_prompt svcs) @ rest)"
    by (rule parse_categories_service_text)
  finally show ?case by (simp add: Cons.IH)
qed

text \<open>The headers that the services of one category bring into the text themselves.\<close>

lemma parse_categories_block_text:
  assumes "c \<in> set category_order"
  shows "parse_categories (category_block services c @ rest) =
           c # concat (map (\<lambda>svc. parse_categories (format_service_prompt svc))
                        (filter (\<lambda>svc. svc_category svc = c) services))
           @ parse_categories rest"
  by (simp add: category_block_def parse_categories_header [OF assms] parse_categories_services_text)

lemma parse_categories_blocks_text:
  "set cs \<subseteq> set category_order \<Longrightarrow>
     parse_categories (concat (map (category_block services) cs) @ rest) =
       concat (map (\<lambda>c. c # concat (map (\<lambda>svc. parse_categories (format_service_prompt svc))
                                       (filter (\<lambda>svc. svc_category svc = c) services))) cs)
       @ parse_categories rest"
  by (induction cs) (simp_all add: parse_categories_block_text)

lemma parse_grouped_text_eq:
  "parse_categories
     (prompt_header @ concat (map (category_block services) (populated_categories services))
      @ closing_sentence) =
   concat (map (\<lambda>c. c # concat (map (\<lambda>svc. parse_categories (format_service_prompt svc))
                                   (filter (\<lambda>svc. svc_category svc = c) services)))
            (populated_categories services))"
proof -
  have sub: "set (populated_categories services) \<subseteq> set category_order"
    by (simp add: populated_categories_def)
  show ?thesis
    by (simp only: parse_categories_prompt_header parse_categories_blocks_text [OF sub]
          parse_categories_closing append_Nil2)
qed

lemma concat_heads_eq:
  "(concat (map (\<lambda>c. c # E c) cs) = cs) = (\<forall>c \<in> set cs. E c = [])"
proof
  assume "\<forall>c \<in> set cs. E c = []"
  then show "concat (map (\<lambda>c. c # E c) cs) = cs" by (induction cs) simp_all
next
  assume e: "concat (map (\<lambda>c. c # E c) cs) = cs"
  have len: "length (concat (map (\<lambda>c. c # E c) cs)) = length cs + sum_list (map (\<lambda>c. length (E c)) cs)"
    by (induction cs) simp_all
  from e len have "sum_list (map (\<lambda>c. length (E c)) cs) = 0" by simp
  then show "\<forall>c \<in> set cs. E c = []" by (induction cs) auto
qed

lemma parse_grouped_text_iff:
  "(parse_categories
      (prompt_header @ concat (map (category_block services) (populated_categories services))
       @ closing_sentence) = populated_categories services)
   = (\<forall>svc \<in> set services. svc_category svc \<in> set category_order \<longrightarrow> header_free svc)"
proof -
  have "(\<forall>c \<in> set (populated_categories services).
           concat (map (\<lambda>svc. parse_categories (format_service_prompt svc))
                    (filter (\<lambda>svc. svc_category svc = c) services)) = [])
        = (\<forall>svc \<in> set services. svc_category svc \<in> set category_order \<longrightarrow> header_free svc)"
    by (auto simp: populated_categories_def header_free_parse)
  then show ?thesis
    by (simp only: parse_grouped_text_eq concat_heads_eq)
qed

lemma single_line_header_free: "single_line svc \<Longrightarrow> header_free svc"
  using parse_categories_service [of svc "[]"] by (simp add: header_free_parse parse_categories_Nil)

lemma populated_categories_unknown:
  "\<forall>svc \<in> set services. svc_category svc \<notin> set category_order \<Longrightarrow>
     populated_categories services = []"
  by (auto simp: populated_categories_def filter_empty_conv)

lemma populated_categories_drop:
  assumes "svc_category svc \<notin> set category_order"
  shows "populated_categories (xs @ svc # ys) = populated_categories (xs @ ys)"
  unfolding populated_categories_def using assms by (intro filter_cong) auto

lemma category_block_drop:
  assumes "svc_category svc \<noteq> c"
  shows "category_block (xs @ svc # ys) c = category_block (xs @ ys) c"
  using assms by (simp add: category_block_def)

lemma blocks_drop:
  assumes "svc_category svc \<notin> set category_order"
  shows "concat (map (category_block (xs @ svc # ys)) (populated_categories (xs @ svc # ys))) =
         concat (map (category_block (xs @ ys)) (populated_categories (xs @ ys)))"
proof -
  have "map (category_block (xs @ svc # ys)) (populated_categories (xs @ ys)) =
        map (category_block (xs @ ys)) (populated_categories (xs @ ys))"
  proof (rule map_cong [OF refl])
    fix c assume "c \<in> set (populated_categories (xs @ ys))"
    then have "c \<in> set category_order" by (simp add: populated_categories_def)
    with assms have "svc_category svc \<noteq> c" by auto
    then show "category_block (xs @ svc # ys) c = category_block (xs @ ys) c"
      by (rule category_block_drop)
  qed
  then show ?thesis by (simp only: populated_categories_drop [OF assms])
qed

lemma digit_char_not_nl: "d < 10 \<Longrightarrow> digit_char d \<noteq> nl"
proof -
  assume "d < 10"
  then have "d \<in> {0, 1, 2, 3, 4, 5, 6, 7, 8, 9}" by auto
  then show ?thesis by (auto simp: digit_char_def nl_def)
qed

lemma str_nat_no_nl: "nl \<notin> set (str_nat n)"
proof
  assume "nl \<in> set (str_nat n)"
  with str_nat_digits [of n] obtain d where "d < 10" and "nl = digit_char d" by auto
  with digit_char_not_nl [of d] show False by simp
qed

lemma str_int_no_nl: "nl \<notin> set (str_int i)"
proof (cases "i < 0")
  case True
  with str_nat_no_nl [of "nat (- i)"] show ?thesis by (simp add: str_int_def) (simp add: nl_def)
next
  case False
  with str_nat_no_nl [of "nat i"] show ?thesis by (simp add: str_int_def)
qed

lemma format_service_category:
  "svc_category (format_service sid svc_info) =
     (case info_category svc_info of None \<Rightarrow> ''other'' | Some c \<Rightarrow> c)"
  by (simp add: format_service_def Let_def)

lemma format_service_single_line:
  "single_line (format_service sid svc_info) =
     (nl \<notin> set (info_name svc_info) \<and> nl \<notin> set sid \<and> nl \<notin> set (info_description svc_info))"
  using str_int_no_nl [of "info_port svc_info"]
  by (auto simp: single_line_def format_service_def Let_def nl_def)

subsection \<open>The script for the prompt\<close>

lemma formatted_append: "formatted (xs @ ys) = formatted xs @ formatted ys"
  by (simp add: formatted_def)

lemma include_non_restricted_formatted:
  "formatted (include_non_restricted reg acc) = add_non_restricted reg (formatted acc)"
  by (induction reg arbitrary: acc) (auto simp: formatted_def)

lemma include_services_formatted:
  "formatted (include_services reg refs acc) = collect_services reg refs (formatted acc)"
  by (induction refs arbitrary: acc)
     (auto simp: include_non_restricted_formatted formatted_append split: option.splits,
      simp_all add: formatted_def)

lemma format_included_eq:
  "format_included sid svc_info = format_service_prompt (format_service sid svc_info)"
  by (simp add: format_included_def format_service_prompt_def format_service_def Let_def)

lemma emit_included_eq:
  "emit_included entries prompt = prompt @ concat (map format_service_prompt (formatted entries))"
  by (induction entries arbitrary: prompt) (auto simp: formatted_def format_included_eq)

lemma emit_included_categories_acc:
  "emit_included_categories cats categories prompt =
     prompt @ emit_included_categories cats categories []"
proof (induction cats arbitrary: prompt)
  case Nil
  show ?case by simp
next
  case (Cons c cats)
  show ?case
    by (subst (1 2) emit_included_categories.simps, subst (1 2) Cons.IH)
       (simp add: emit_included_eq split: option.splits)
qed

lemma map_of_group_included:
  "map_of (group_included entries acc) c =
     (case map_of acc c of
        None \<Rightarrow> (if c \<in> set (map (get_category \<circ> snd) entries)
                 then Some (filter (\<lambda>e. get_category (snd e) = c) entries) else None)
      | Some es \<Rightarrow> Some (es @ filter (\<lambda>e. get_category (snd e) = c) entries))"
proof (induction entries arbitrary: acc)
  case Nil
  show ?case by (simp split: option.splits)
next
  case (Cons e entries)
  obtain sid svc_info where e: "e = (sid, svc_info)" by (cases e)
  show ?case unfolding e
    by (simp add: Cons.IH Let_def update_conv' split: option.splits)
qed

lemma svc_category_formatted:
  "svc_category (format_service sid svc_info) = get_category svc_info"
  by (simp add: format_service_def get_category_def Let_def)

lemma formatted_filter:
  "formatted (filter (\<lambda>e. get_category (snd e) = c) entries) =
     filter (\<lambda>svc. svc_category svc = c) (formatted entries)"
  by (induction entries) (auto simp: formatted_def svc_category_formatted)

lemma formatted_categories:
  "map svc_category (formatted entries) = map (get_category \<circ> snd) entries"
  by (induction entries) (auto simp: formatted_def svc_category_formatted)

lemma emit_included_categories_eq:
  "emit_included_categories cats (group_included entries []) [] =
     concat (map (category_block (formatted entries))
              (filter (\<lambda>c. c \<in> set (map svc_category (formatted entries))) cats))"
proof (induction cats)
  case Nil
  show ?case by simp
next
  case (Cons c cats)
  show ?case
    by (subst emit_included_categories.simps, subst emit_included_categories_acc)
       (simp add: Cons.IH emit_included_eq map_of_group_included category_block_def [abs_def]
          formatted_filter formatted_categories)
qed

lemma context_prompt_main_eq:
  assumes "map_of (profiles profs) p = Some cfg"
  shows "generate_context_prompt_main reg profs p =
           Inr (prompt_header
                @ concat (map (category_block (collect_services reg (profile_services cfg) []))
                           (populated_categories (collect_services reg (profile_services cfg) [])))
                @ closing_sentence)"
proof -
  have f: "formatted (include_services reg (profile_services cfg) []) =
             collect_services reg (profile_services cfg) []"
    by (simp add: include_services_formatted) (simp add: formatted_def)
  show ?thesis
    using emit_included_categories_acc [of category_order
        "group_included (include_services reg (profile_services cfg) []) []" prompt_header]
    by (simp add: generate_context_prompt_main_def assms Let_def emit_included_categories_eq f
          populated_categories_def)
qed

text \<open>
  Claim C8, as the code has it. For a service list that is not empty, rendered with
  grouping by category, the text is the header, then one block for every category of
  the fixed order core, search, ai-context, project, development, other that a service
  of the list has, in that order, then the closing sentence; a block is the header of
  its category followed by the services of that category. Reading the category headers
  back from the text gives exactly the fixed order restricted to the populated
  categories if and only if no line rendered for a service of one of the fixed
  categories reads as a category header itself. A service whose category is outside
  the fixed order is not emitted: the blocks are those of the list without it, and the
  text is the text of the list without it when that list is not empty; when every
  service is outside the fixed order the text is the header and the closing sentence.
  The script \<open>generate-context-prompt.py\<close> prints the same text for the services of
  its profile, also when there are none.
\<close>

theorem grouped_prompt_headers:
  "(services \<noteq> [] \<longrightarrow>
      render_prompt services True =
        prompt_header @ concat (map (category_block services) (populated_categories services))
        @ closing_sentence
      \<and> ((parse_categories (render_prompt services True) = populated_categories services)
           = (\<forall>svc \<in> set services. svc_category svc \<in> set category_order \<longrightarrow> header_free svc))
      \<and> (services = xs @ svc # ys \<and> svc_category svc \<notin> set category_order \<longrightarrow>
           render_prompt services True =
             prompt_header @ concat (map (category_block (xs @ ys)) (populated_categories (xs @ ys)))
             @ closing_sentence
           \<and> (xs @ ys \<noteq> [] \<longrightarrow> render_prompt services True = render_prompt (xs @ ys) True))
      \<and> ((\<forall>svc \<in> set services. svc_category svc \<notin> set category_order) \<longrightarrow>
           render_prompt services True = prompt_header @ closing_sentence))
   \<and> (get_services_for_profile reg profs p = Inr services \<longrightarrow>
        generate_context_prompt_main reg profs p =
          Inr (prompt_header
               @ concat (map (category_block services) (populated_categories services))
               @ closing_sentence)
        \<and> ((parse_categories
               (prompt_header
                @ concat (map (category_block services) (populated_categories services))
                @ closing_sentence) = populated_categories services)
             = (\<forall>svc \<in> set services. svc_category svc \<in> set category_order \<longrightarrow> header_free svc)))"
proof (intro impI conjI)
  assume ne: "services \<noteq> []"
  show g: "render_prompt services True =
       prompt_header @ concat (map (category_block services) (populated_categories services))
       @ closing_sentence"
    using ne by (rule render_prompt_grouped)
  show "(parse_categories (render_prompt services True) = populated_categories services)
           = (\<forall>svc \<in> set services. svc_category svc \<in> set category_order \<longrightarrow> header_free svc)"
    unfolding g by (rule parse_grouped_text_iff)
  show "render_prompt services True = prompt_header @ closing_sentence"
    if "\<forall>svc \<in> set services. svc_category svc \<notin> set category_order"
    unfolding g by (simp add: populated_categories_unknown [OF that])
next
  assume a: "services = xs @ svc # ys \<and> svc_category svc \<notin> set category_order"
  then have u: "svc_category svc \<notin> set category_order" and e: "services = xs @ svc # ys"
    by simp_all
  have f: "xs @ svc # ys \<noteq> []" by simp
  show d: "render_prompt services True =
             prompt_header @ concat (map (category_block (xs @ ys)) (populated_categories (xs @ ys)))
             @ closing_sentence"
    unfolding e by (simp only: render_prompt_grouped [OF f] blocks_drop [OF u])
  show "render_prompt services True = render_prompt (xs @ ys) True" if r: "xs @ ys \<noteq> []"
    unfolding d by (simp only: render_prompt_grouped [OF r])
next
  assume r: "get_services_for_profile reg profs p = Inr services"
  then obtain cfg where c: "map_of (profiles profs) p = Some cfg"
    by (cases "map_of (profiles profs) p") (simp_all add: get_services_for_profile_def)
  with r have s: "services = collect_services reg (profile_services cfg) []"
    by (simp add: get_services_for_profile_def)
  show "generate_context_prompt_main reg profs p =
          Inr (prompt_header
               @ concat (map (category_block services) (populated_categories services))
               @ closing_sentence)"
    unfolding s by (rule context_prompt_main_eq [OF c])
  show "(parse_categories
               (prompt_header
                @ concat (map (category_block services) (populated_categories services))
                @ closing_sentence) = populated_categories services)
             = (\<forall>svc \<in> set services. svc_category svc \<in> set category_order \<longrightarrow> header_free svc)"
    by (rule parse_grouped_text_iff)
qed

theorem grouped_prompt_headers_witness:
  "get_services_for_profile category_registry category_profiles ''all'' =
     Inr [format_service ''s'' search_info, format_service ''w'' weather_info,
          format_service ''c'' core_info]
   \<and> \<not> single_line (format_service ''s'' search_info)
   \<and> header_free (format_service ''s'' search_info)
   \<and> header_free (format_service ''c'' core_info)
   \<and> svc_category (format_service ''w'' weather_info) = ''weather''
   \<and> populated_categories [format_service ''s'' search_info, format_service ''w'' weather_info,
                            format_service ''c'' core_info] = [''core'', ''search'']
   \<and> parse_categories (render_prompt [format_service ''s'' search_info,
                                       format_service ''w'' weather_info,
                                       format_service ''c'' core_info] True) = [''core'', ''search'']
   \<and> render_prompt [format_service ''s'' search_info, format_service ''w'' weather_info,
                     format_service ''c'' core_info] True =
       render_prompt [format_service ''s'' search_info, format_service ''c'' core_info] True
   \<and> generate_context_prompt_main category_registry category_profiles ''all'' =
       Inr (render_prompt [format_service ''s'' search_info, format_service ''w'' weather_info,
                           format_service ''c'' core_info] True)
   \<and> render_prompt [format_service ''w'' weather_info] True = prompt_header @ closing_sentence"
proof -
  let ?s = "format_service ''s'' search_info"
  let ?w = "format_service ''w'' weather_info"
  let ?c = "format_service ''c'' core_info"
  let ?l1 = "''**Search** (`s`)''"
  let ?l2 = "''- URL: http://localhost:4001''"
  let ?l3 = "''- Purpose: web search''"
  let ?l4 = "''and news''"
  have res: "get_services_for_profile category_registry category_profiles ''all'' = Inr [?s, ?w, ?c]"
    by (simp add: get_services_for_profile_def category_registry_def category_profiles_def
          get_requires_auth_def search_info_def weather_info_def core_info_def)
  have ne: "[?s, ?w, ?c] \<noteq> []" by simp
  have nsl: "\<not> single_line ?s"
    by (simp add: format_service_single_line search_info_def)
  have f: "format_service_prompt ?s = ?l1 @ nl # (?l2 @ nl # (?l3 @ nl # (?l4 @ nl # (nl # []))))"
    by (simp add: format_service_prompt_def format_service_def search_info_def get_location_def
          get_requires_auth_def str_int_def str_nat.simps digit_char_def Let_def)
  have hs: "header_free ?s"
  proof -
    have n1: "nl \<notin> set ?l1" and n2: "nl \<notin> set ?l2" and n3: "nl \<notin> set ?l3"
      and n4: "nl \<notin> set ?l4"
      by (simp_all add: nl_def)
    have p1: "\<not> prefix ''### '' ?l1" and p2: "\<not> prefix ''### '' ?l2"
      and p3: "\<not> prefix ''### '' ?l3" and p4: "\<not> prefix ''### '' ?l4"
      by simp_all
    have "parse_categories (?l1 @ nl # (?l2 @ nl # (?l3 @ nl # (?l4 @ nl # (nl # []))))) = []"
      by (simp only: parse_categories_skip [OF n1 p1] parse_categories_skip [OF n2 p2]
            parse_categories_skip [OF n3 p3] parse_categories_skip [OF n4 p4]
            parse_categories_blank parse_categories_Nil)
    then show ?thesis by (simp only: header_free_parse f)
  qed
  have hc: "header_free ?c"
    by (rule single_line_header_free)
       (simp add: format_service_single_line core_info_def nl_def)
  have cs: "svc_category ?s = ''search''" and cw: "svc_category ?w = ''weather''"
    and cc: "svc_category ?c = ''core''"
    by (simp_all add: format_service_category search_info_def weather_info_def core_info_def)
  have pop: "populated_categories [?s, ?w, ?c] = [''core'', ''search'']"
    by (simp add: populated_categories_def cs cw cc category_order_def)
  have dec: "[?s, ?w, ?c] = [?s] @ ?w # [?c]" by simp
  have rest: "[?s] @ [?c] \<noteq> []" by simp
  have unknown: "svc_category ?w \<notin> set category_order"
    by (simp add: cw category_order_def)
  have all: "\<forall>svc \<in> set [?s, ?w, ?c]. svc_category svc \<in> set category_order \<longrightarrow> header_free svc"
    using hs hc unknown by simp
  from grouped_prompt_headers [of "[?s, ?w, ?c]" "[?s]" ?w "[?c]" category_registry
      category_profiles "''all''"] ne all dec rest unknown res
  have 1: "parse_categories (render_prompt [?s, ?w, ?c] True) = populated_categories [?s, ?w, ?c]"
    and 2: "render_prompt [?s, ?w, ?c] True = render_prompt ([?s] @ [?c]) True"
    and 3: "render_prompt [?s, ?w, ?c] True =
        prompt_header @ concat (map (category_block [?s, ?w, ?c]) (populated_categories [?s, ?w, ?c]))
        @ closing_sentence"
    and 4: "generate_context_prompt_main category_registry category_profiles ''all'' =
          Inr (prompt_header
               @ concat (map (category_block [?s, ?w, ?c]) (populated_categories [?s, ?w, ?c]))
               @ closing_sentence)"
    by blast+
  from 3 4 have 5: "generate_context_prompt_main category_registry category_profiles ''all'' =
       Inr (render_prompt [?s, ?w, ?c] True)"
    by simp
  from 1 pop have 6: "parse_categories (render_prompt [?s, ?w, ?c] True) = [''core'', ''search'']"
    by simp
  from 2 have 7: "render_prompt [?s, ?w, ?c] True = render_prompt [?s, ?c] True" by simp
  have one: "[?w] \<noteq> []" by simp
  have only: "\<forall>svc \<in> set [?w]. svc_category svc \<notin> set category_order"
    using unknown by simp
  from grouped_prompt_headers [of "[?w]"] one only
  have 8: "render_prompt [?w] True = prompt_header @ closing_sentence"
    by blast
  from res nsl hs hc cw pop 6 7 5 8 show ?thesis by (intro conjI)
qed

text \<open>
  Claim C8 as it is stated fails. The two resolved lists below render to the same text,
  the first has a service of the category core only, the second services of core and of
  search: no reading of the text can give the populated categories of both.
\<close>

theorem forged_header_counterexample:
  "get_services_for_profile forged_registry category_profiles ''all'' =
     Inr [format_service ''n'' forged_info]
   \<and> get_services_for_profile plain_registry category_profiles ''all'' =
       Inr [format_service ''n'' plain_info, format_service ''j'' second_info]
   \<and> render_prompt [format_service ''n'' forged_info] True =
       render_prompt [format_service ''n'' plain_info, format_service ''j'' second_info] True
   \<and> populated_categories [format_service ''n'' forged_info] = [''core'']
   \<and> populated_categories [format_service ''n'' plain_info, format_service ''j'' second_info] =
       [''core'', ''search'']
   \<and> parse_categories (render_prompt [format_service ''n'' forged_info] True) =
       [''core'', ''search'']"
proof -
  let ?f = "format_service ''n'' forged_info"
  let ?p = "format_service ''n'' plain_info"
  let ?s = "format_service ''j'' second_info"
  have r1: "get_services_for_profile forged_registry category_profiles ''all'' = Inr [?f]"
    by (simp add: get_services_for_profile_def forged_registry_def category_profiles_def
          get_requires_auth_def forged_info_def)
  have r2: "get_services_for_profile plain_registry category_profiles ''all'' = Inr [?p, ?s]"
    by (simp add: get_services_for_profile_def plain_registry_def category_profiles_def
          get_requires_auth_def plain_info_def second_info_def)
  have cf: "svc_category ?f = ''core''" and cp: "svc_category ?p = ''core''"
    and cs: "svc_category ?s = ''search''"
    by (simp_all add: format_service_category forged_info_def plain_info_def second_info_def)
  have p1: "populated_categories [?f] = [''core'']"
    by (simp add: populated_categories_def cf category_order_def)
  have p2: "populated_categories [?p, ?s] = [''core'', ''search'']"
    by (simp add: populated_categories_def cp cs category_order_def)
  have b1: "category_block [?f] ''core'' = category_header ''core'' @ format_service_prompt ?f"
    by (simp add: category_block_def cf)
  have b2: "category_block [?p, ?s] ''core'' = category_header ''core'' @ format_service_prompt ?p"
    and b3: "category_block [?p, ?s] ''search'' = category_header ''search'' @ format_service_prompt ?s"
    by (simp_all add: category_block_def cp cs)
  have h: "category_header ''search'' = ''### Search Services'' @ [nl, nl]"
    by code_simp
  have u: "svc_url ?s = ''http://localhost:4001''"
    by (simp add: format_service_def second_info_def get_location_def str_int_def str_nat.simps
          digit_char_def Let_def)
  have fs: "format_service_prompt ?s = ''**M** (`j`)'' @ [nl] @ ''- URL: http://localhost:4001''
              @ [nl] @ ''- Purpose: e'' @ [nl, nl]"
    using u by (simp add: format_service_prompt_def)
       (simp add: format_service_def second_info_def get_requires_auth_def Let_def)
  have ff: "format_service_prompt ?f =
              format_service_prompt ?p @ category_header ''search'' @ format_service_prompt ?s"
    unfolding h fs
    by (simp add: format_service_prompt_def)
       (simp add: format_service_def forged_info_def plain_info_def get_requires_auth_def
          get_location_def Let_def)
  have e: "render_prompt [?f] True = render_prompt [?p, ?s] True"
    using render_prompt_grouped [of "[?f]"] render_prompt_grouped [of "[?p, ?s]"]
    by (simp add: p1 p2 b1 b2 b3 ff)
  have sl: "\<forall>svc \<in> set [?p, ?s]. single_line svc"
    by (simp add: format_service_single_line plain_info_def second_info_def nl_def)
  have "parse_categories (render_prompt [?p, ?s] True) = populated_categories [?p, ?s]"
    by (rule parse_render_prompt [OF _ sl]) simp
  with e p2 have q: "parse_categories (render_prompt [?f] True) = [''core'', ''search'']"
    by simp
  from r1 r2 e p1 p2 q show ?thesis by (intro conjI)
qed


end
